theory Spec2Isabelle
  imports Main "HOL-Library.Stream"
begin

section \<open>Maths worksheet generator: problem generation and grid layout\<close>

text \<open>
  A shallow embedding of \<^verbatim>\<open>maths_worksheet.py\<close>. Python integers are unbounded and
  are modelled by \<^typ>\<open>int\<close>; Python strings are modelled by \<^typ>\<open>string\<close>. Exceptions
  are values of the type \<open>error\<close>, and a function that may raise returns
  \<open>error + 'a\<close> with \<open>Inl\<close> for the exception.
\<close>

subsection \<open>Exceptions\<close>

datatype error = ValueError | UnboundLocalError | EOFError | KeyError

subsection \<open>The random source\<close>

text \<open>
  The state of Python's module-level generator is abstracted to the stream of raw draws
  it will deliver. \<^verbatim>\<open>random.randint(a, b)\<close> raises \<^verbatim>\<open>ValueError\<close> on an empty range
  and otherwise returns some \<open>N\<close> with \<open>a \<le> N \<le> b\<close>; here it consumes one raw draw and
  reduces it into the range. Every value of the range is delivered by some stream
  (lemma \<open>randint_any_value\<close>), so a statement over all streams covers every outcome
  the real generator can have.
\<close>

type_synonym rng = "nat stream"

definition randint :: "int \<Rightarrow> int \<Rightarrow> rng \<Rightarrow> error + (int \<times> rng)" where
  "randint a b g =
     (if b < a then Inl ValueError
      else Inr (a + int (shd g mod nat (b - a + 1)), stl g))"

subsection \<open>Rendering integers\<close>

text \<open>
  An f-string field \<^verbatim>\<open>{a}\<close> and \<^verbatim>\<open>str(a)\<close> render an integer in decimal, with a
  leading minus sign when it is negative.
\<close>

definition digit_char :: "nat \<Rightarrow> char" where
  "digit_char d = ''0123456789'' ! d"

fun str_nat :: "nat \<Rightarrow> string" where
  "str_nat n =
     (if n < 10 then [digit_char n]
      else str_nat (n div 10) @ [digit_char (n mod 10)])"

declare str_nat.simps [simp del]

definition str :: "int \<Rightarrow> string" where
  "str i = (if i < 0 then CHR ''-'' # str_nat (nat (- i)) else str_nat (nat i))"

text \<open>The backslash of the LaTeX commands; it cannot be written inside a literal.\<close>

definition bsl :: char where
  "bsl = CHR 0x5C"

subsection \<open>Generating one problem\<close>

text \<open>
  \<^verbatim>\<open>generate_problem(operation, min_num, max_num)\<close>. The four branches bind
  \<^verbatim>\<open>problem\<close> and \<^verbatim>\<open>answer\<close>; with any other operation name the final
  \<^verbatim>\<open>return problem, answer\<close> reads unbound locals and raises
  \<^verbatim>\<open>UnboundLocalError\<close>.
\<close>

definition generate_problem ::
    "string \<Rightarrow> int \<Rightarrow> int \<Rightarrow> rng \<Rightarrow> error + ((string \<times> int) \<times> rng)" where
  "generate_problem operation min_num max_num g =
     (if operation = ''addition'' then
        (case randint min_num max_num g of
           Inl e \<Rightarrow> Inl e
         | Inr (a, g1) \<Rightarrow>
            (case randint min_num max_num g1 of
               Inl e \<Rightarrow> Inl e
             | Inr (b, g2) \<Rightarrow>
                 let answer = a + b;
                     problem = str a @ '' + '' @ str b
                 in Inr ((problem, answer), g2)))
      else if operation = ''subtraction'' then
        (case randint min_num max_num g of
           Inl e \<Rightarrow> Inl e
         | Inr (a, g1) \<Rightarrow>
            (case randint min_num a g1 of
               Inl e \<Rightarrow> Inl e
             | Inr (b, g2) \<Rightarrow>
                 let answer = a - b;
                     problem = str a @ '' - '' @ str b
                 in Inr ((problem, answer), g2)))
      else if operation = ''multiplication'' then
        (case randint min_num max_num g of
           Inl e \<Rightarrow> Inl e
         | Inr (a, g1) \<Rightarrow>
            (case randint min_num max_num g1 of
               Inl e \<Rightarrow> Inl e
             | Inr (b, g2) \<Rightarrow>
                 let answer = a * b;
                     problem = str a @ '' '' @ bsl # ''times '' @ str b
                 in Inr ((problem, answer), g2)))
      else if operation = ''division'' then
        (case randint (max 1 min_num) max_num g of
           Inl e \<Rightarrow> Inl e
         | Inr (b, g1) \<Rightarrow>
            (case randint min_num max_num g1 of
               Inl e \<Rightarrow> Inl e
             | Inr (answer, g2) \<Rightarrow>
                 let a = b * answer;
                     problem = str a @ '' '' @ bsl # ''div '' @ str b
                 in Inr ((problem, answer), g2)))
      else Inl UnboundLocalError)"

subsection \<open>Generating the problem set\<close>

text \<open>
  \<^verbatim>\<open>generate_problems\<close>: the loop \<^verbatim>\<open>for _ in range(num_questions)\<close> appends one
  generated pair per iteration; \<^verbatim>\<open>range\<close> of a non-positive number is empty. An
  exception raised by a call leaves the loop and the function.
\<close>

fun generate_loop ::
    "string \<Rightarrow> int \<Rightarrow> int \<Rightarrow> nat \<Rightarrow> (string \<times> int) list \<Rightarrow> rng
       \<Rightarrow> error + ((string \<times> int) list \<times> rng)" where
  "generate_loop operation min_num max_num 0 problems g = Inr (problems, g)"
| "generate_loop operation min_num max_num (Suc k) problems g =
     (case generate_problem operation min_num max_num g of
        Inl e \<Rightarrow> Inl e
      | Inr ((problem, answer), g') \<Rightarrow>
          generate_loop operation min_num max_num k (problems @ [(problem, answer)]) g')"

definition generate_problems ::
    "string \<Rightarrow> int \<Rightarrow> int \<Rightarrow> int \<Rightarrow> rng \<Rightarrow> error + ((string \<times> int) list \<times> rng)" where
  "generate_problems operation min_num max_num num_questions g =
     generate_loop operation min_num max_num (nat num_questions) [] g"

subsection \<open>Reading the parameters\<close>

text \<open>
  \<^verbatim>\<open>get_user_input\<close> reads lines from standard input, modelled as the list of lines
  still to be read; \<^verbatim>\<open>input()\<close> on an exhausted input raises \<^verbatim>\<open>EOFError\<close>. The
  built-ins \<^verbatim>\<open>int\<close> (here \<open>to_int\<close>, \<open>None\<close> where \<^verbatim>\<open>int\<close> raises
  \<^verbatim>\<open>ValueError\<close>, which every loop catches) and \<^verbatim>\<open>str.strip\<close> (here \<open>strip\<close>) are
  parameters. What is printed is not modelled.
\<close>

record params =
  operation :: string
  min_num :: int
  max_num :: int
  num_questions :: int
  student_name :: string

fun read_op_choice ::
    "(string \<Rightarrow> int option) \<Rightarrow> string list \<Rightarrow> error + (int \<times> string list)" where
  "read_op_choice to_int [] = Inl EOFError"
| "read_op_choice to_int (l # ls) =
     (case to_int l of
        None \<Rightarrow> read_op_choice to_int ls
      | Some op_choice \<Rightarrow>
          if 1 \<le> op_choice \<and> op_choice \<le> 4 then Inr (op_choice, ls)
          else read_op_choice to_int ls)"

definition operations :: "int \<rightharpoonup> string" where
  "operations =
     [1 \<mapsto> ''addition'', 2 \<mapsto> ''subtraction'', 3 \<mapsto> ''multiplication'', 4 \<mapsto> ''division'']"

fun read_range ::
    "(string \<Rightarrow> int option) \<Rightarrow> string \<Rightarrow> string list
       \<Rightarrow> error + ((int \<times> int) \<times> string list)" where
  "read_range to_int opn [] = Inl EOFError"
| "read_range to_int opn (l1 # ls) =
     (case to_int l1 of
        None \<Rightarrow> read_range to_int opn ls
      | Some mn \<Rightarrow>
         (case ls of
            [] \<Rightarrow> Inl EOFError
          | l2 # ls' \<Rightarrow>
             (case to_int l2 of
                None \<Rightarrow> read_range to_int opn ls'
              | Some mx \<Rightarrow>
                  if mn < mx then
                    (if opn = ''division'' \<and> mn < 1 then Inr ((1, mx), ls')
                     else Inr ((mn, mx), ls'))
                  else read_range to_int opn ls')))"

fun read_num_questions ::
    "(string \<Rightarrow> int option) \<Rightarrow> string list \<Rightarrow> error + (int \<times> string list)" where
  "read_num_questions to_int [] = Inl EOFError"
| "read_num_questions to_int (l # ls) =
     (case to_int l of
        None \<Rightarrow> read_num_questions to_int ls
      | Some n \<Rightarrow> if 0 < n then Inr (n, ls) else read_num_questions to_int ls)"

definition get_user_input ::
    "(string \<Rightarrow> int option) \<Rightarrow> (string \<Rightarrow> string) \<Rightarrow> string list
       \<Rightarrow> error + (params \<times> string list)" where
  "get_user_input to_int strip lines =
     (case read_op_choice to_int lines of
        Inl e \<Rightarrow> Inl e
      | Inr (op_choice, lines1) \<Rightarrow>
         (case operations op_choice of
            None \<Rightarrow> Inl KeyError
          | Some opn \<Rightarrow>
             (case read_range to_int opn lines1 of
                Inl e \<Rightarrow> Inl e
              | Inr ((mn, mx), lines2) \<Rightarrow>
                 (case read_num_questions to_int lines2 of
                    Inl e \<Rightarrow> Inl e
                  | Inr (n, lines3) \<Rightarrow>
                     (case lines3 of
                        [] \<Rightarrow> Inl EOFError
                      | l # lines4 \<Rightarrow>
                          Inr (\<lparr>operation = opn, min_num = mn, max_num = mx,
                                 num_questions = n, student_name = strip l\<rparr>, lines4))))))"

text \<open>
  The first two steps of \<^verbatim>\<open>main\<close>: the parameters are read and the problems are
  generated from them.
\<close>

definition main_problems ::
    "(string \<Rightarrow> int option) \<Rightarrow> (string \<Rightarrow> string) \<Rightarrow> string list \<Rightarrow> rng
       \<Rightarrow> error + (params \<times> (string \<times> int) list)" where
  "main_problems to_int strip lines g =
     (case get_user_input to_int strip lines of
        Inl e \<Rightarrow> Inl e
      | Inr (ps, rest) \<Rightarrow>
         (case generate_problems (operation ps) (min_num ps) (max_num ps) (num_questions ps) g of
            Inl e \<Rightarrow> Inl e
          | Inr (problems, g') \<Rightarrow> Inr (ps, problems)))"

subsection \<open>The LaTeX document\<close>

text \<open>
  \<^verbatim>\<open>get_operation_symbol\<close>: a dictionary lookup with the operation itself as default.
  The signs \<^verbatim>\<open>\<times>\<close> and \<^verbatim>\<open>\<div>\<close> of the labels are given by their UTF-8 bytes.
\<close>

definition symbols :: "string \<rightharpoonup> string" where
  "symbols =
     [''addition'' \<mapsto> ''Addition (+)'',
      ''subtraction'' \<mapsto> ''Subtraction (-)'',
      ''multiplication'' \<mapsto> ''Multiplication ('' @ [CHR 0xC3, CHR 0x97] @ '')'',
      ''division'' \<mapsto> ''Division ('' @ [CHR 0xC3, CHR 0xB7] @ '')'']"

definition get_operation_symbol :: "string \<Rightarrow> string" where
  "get_operation_symbol opn = (case symbols opn of Some label \<Rightarrow> label | None \<Rightarrow> opn)"

text \<open>The column count chosen from the number of problems.\<close>

definition columns_for :: "nat \<Rightarrow> nat" where
  "columns_for num_problems =
     (if num_problems \<le> 12 then 3
      else if num_problems \<le> 24 then 4
      else 5)"

text \<open>\<^verbatim>\<open>sep.join(xs)\<close>.\<close>

fun join :: "string \<Rightarrow> string list \<Rightarrow> string" where
  "join sep [] = []"
| "join sep [x] = x"
| "join sep (x # y # ys) = x @ sep @ join sep (y # ys)"

text \<open>
  The cell of one problem: the numbered expression, then either the answer or a rule to
  write on.
\<close>

definition cell_of :: "bool \<Rightarrow> nat \<Rightarrow> string \<Rightarrow> int \<Rightarrow> string" where
  "cell_of show_answers q_num problem answer =
     (if show_answers then
        bsl # ''textbf{'' @ str (int q_num) @ ''.} $'' @ problem @ ''$ & $= '' @ str answer @ ''$''
      else
        bsl # ''textbf{'' @ str (int q_num) @ ''.} $'' @ problem @ ''$ & $=$ ''
          @ bsl # ''rule{1.5cm}{0.4pt}'')"

text \<open>The padding loop \<^verbatim>\<open>while len(row) < columns: row.append(" & ")\<close>.\<close>

function pad_row :: "nat \<Rightarrow> string list \<Rightarrow> string list" where
  "pad_row columns row =
     (if length row < columns then pad_row columns (row @ ['' & '']) else row)"
  by pat_completeness auto
termination
  by (relation "measure (\<lambda>(columns, row). columns - length row)") auto

declare pad_row.simps [simp del]

text \<open>The text appended to the document when a row is closed.\<close>

definition row_line :: "string list \<Rightarrow> string" where
  "row_line row =
     join '' & '' row @ '' '' @ [bsl, bsl] @ ''\<newline>'' @ bsl # ''hline\<newline>''"

text \<open>
  The loop over \<^verbatim>\<open>enumerate(problems)\<close>, started with \<open>i = 0\<close>, the empty row and the
  document so far; \<open>n\<close> is \<^verbatim>\<open>len(problems)\<close> of the whole list.
\<close>

fun fill_problems ::
    "nat \<Rightarrow> bool \<Rightarrow> nat \<Rightarrow> nat \<Rightarrow> (string \<times> int) list \<Rightarrow> string list \<Rightarrow> string
       \<Rightarrow> string" where
  "fill_problems columns show_answers n i [] row latex = latex"
| "fill_problems columns show_answers n i ((problem, answer) # rest) row latex =
     (let q_num = i + 1;
          cell = cell_of show_answers q_num problem answer;
          row = row @ [cell]
      in if length row = columns \<or> int i = int n - 1 then
           fill_problems columns show_answers n (i + 1) rest []
             (latex @ row_line (pad_row columns row))
         else fill_problems columns show_answers n (i + 1) rest row latex)"

text \<open>
  The same loop, recording instead of the text the rows that are handed to
  \<^verbatim>\<open>join\<close>, in the order in which they are closed. Lemma \<open>fill_problems_rows\<close> shows
  that the text of \<open>fill_problems\<close> is exactly the lines of these rows.
\<close>

fun closed_rows ::
    "nat \<Rightarrow> bool \<Rightarrow> nat \<Rightarrow> nat \<Rightarrow> (string \<times> int) list \<Rightarrow> string list
       \<Rightarrow> string list list" where
  "closed_rows columns show_answers n i [] row = []"
| "closed_rows columns show_answers n i ((problem, answer) # rest) row =
     (let q_num = i + 1;
          cell = cell_of show_answers q_num problem answer;
          row = row @ [cell]
      in if length row = columns \<or> int i = int n - 1 then
           pad_row columns row # closed_rows columns show_answers n (i + 1) rest []
         else closed_rows columns show_answers n (i + 1) rest row)"

definition table_rows :: "(string \<times> int) list \<Rightarrow> bool \<Rightarrow> string list list" where
  "table_rows problems show_answers =
     closed_rows (columns_for (length problems)) show_answers (length problems) 0 problems []"

text \<open>The parts of the document before and after the table rows.\<close>

definition preamble :: string where
  "preamble =
     bsl # ''documentclass[12pt,a4paper]{article}\<newline>'' @
     bsl # ''usepackage[utf8]{inputenc}\<newline>'' @
     bsl # ''usepackage[margin=2cm]{geometry}\<newline>'' @
     bsl # ''usepackage{amsmath}\<newline>'' @
     bsl # ''usepackage{array}\<newline>'' @
     bsl # ''usepackage{multicol}\<newline>'' @
     bsl # ''usepackage{fancyhdr}\<newline>'' @
     bsl # ''usepackage{lastpage}\<newline>'' @
     ''\<newline>'' @
     bsl # ''pagestyle{fancy}\<newline>'' @
     bsl # ''fancyhf{}\<newline>'' @
     bsl # ''renewcommand{'' @ bsl # ''headrulewidth}{0.4pt}\<newline>'' @
     bsl # ''renewcommand{'' @ bsl # ''footrulewidth}{0.4pt}\<newline>''"

definition title_of :: "bool \<Rightarrow> string" where
  "title_of show_answers = (if show_answers then ''ANSWER KEY'' else ''MATHS WORKSHEET'')"

definition name_field :: "string \<Rightarrow> string" where
  "name_field name =
     (if name \<noteq> [] then
        bsl # ''noindent'' @ bsl # ''textbf{Name:} '' @ name @ '' '' @ bsl # ''hfill ''
          @ bsl # ''textbf{Date:} '' @ bsl # ''rule{4cm}{0.4pt}'' @ ''\<newline>\<newline>''
      else
        bsl # ''noindent'' @ bsl # ''textbf{Name:} '' @ bsl # ''rule{6cm}{0.4pt} ''
          @ bsl # ''hfill '' @ bsl # ''textbf{Date:} '' @ bsl # ''rule{4cm}{0.4pt}''
          @ ''\<newline>\<newline>'')"

definition col_spec :: "nat \<Rightarrow> string" where
  "col_spec columns =
     ''|'' @ concat (replicate columns (''r@'' @ ''{'' @ bsl # ''hspace{0.3cm}}l|''))"

definition document_head :: "params \<Rightarrow> bool \<Rightarrow> string \<Rightarrow> nat \<Rightarrow> string" where
  "document_head ps show_answers today columns =
     preamble @
     bsl # ''fancyhead[C]{'' @ bsl # ''textbf{'' @ title_of show_answers @ ''}}\<newline>'' @
     bsl # ''fancyfoot[C]{Page '' @ bsl # ''thepage'' @ bsl # '' of '' @ bsl # ''pageref{LastPage}}\<newline>'' @
     bsl # ''fancyfoot[R]{'' @ bsl # ''small Generated: '' @ today @ ''}\<newline>'' @
     ''\<newline>'' @
     bsl # ''begin{document}\<newline>'' @
     ''\<newline>'' @
     bsl # ''begin{center}\<newline>'' @
     ''{'' @ bsl # ''LARGE '' @ bsl # ''textbf{'' @ title_of show_answers @ ''}}\<newline>'' @
     bsl # ''vspace{0.5cm}\<newline>'' @
     ''\<newline>'' @
     ''{'' @ bsl # ''large '' @ get_operation_symbol (operation ps) @ ''}\<newline>'' @
     ''\<newline>'' @
     ''{'' @ bsl # ''normalsize Range: '' @ str (min_num ps) @ '' -- '' @ str (max_num ps) @ ''}\<newline>'' @
     bsl # ''end{center}\<newline>'' @
     ''\<newline>'' @
     bsl # ''vspace{0.3cm}\<newline>'' @
     name_field (student_name ps) @
     bsl # ''vspace{0.5cm}\<newline>\<newline>'' @
     bsl # ''begin{center}\<newline>'' @
     bsl # ''renewcommand{'' @ bsl # ''arraystretch}{2.5}\<newline>'' @
     bsl # ''begin{tabular}{'' @ col_spec columns @ ''}\<newline>'' @
     bsl # ''hline\<newline>''"

definition document_tail :: "bool \<Rightarrow> string" where
  "document_tail show_answers =
     bsl # ''end{tabular}\<newline>'' @
     bsl # ''end{center}\<newline>\<newline>'' @
     (if \<not> show_answers then
        ''\<newline>'' @
        bsl # ''vfill\<newline>'' @
        bsl # ''begin{center}\<newline>'' @
        bsl # ''small'' @ bsl # ''textit{Show your working out in the space provided. Good luck!}\<newline>'' @
        bsl # ''end{center}\<newline>''
      else []) @
     bsl # ''end{document}\<newline>''"

text \<open>
  \<^verbatim>\<open>generate_latex(problems, params, show_answers)\<close>; \<open>today\<close> is the date that
  \<^verbatim>\<open>datetime.now().strftime("%d/%m/%Y")\<close> delivers.
\<close>

definition generate_latex :: "(string \<times> int) list \<Rightarrow> params \<Rightarrow> bool \<Rightarrow> string \<Rightarrow> string" where
  "generate_latex problems ps show_answers today =
     (let num_problems = length problems;
          columns = columns_for num_problems;
          latex = document_head ps show_answers today columns;
          latex = fill_problems columns show_answers num_problems 0 problems [] latex
      in latex @ document_tail show_answers)"

subsection \<open>Reading an expression back\<close>

text \<open>
  The specification speaks of the operands rendered in an expression, recoverable by
  parsing it. \<open>parse_expression\<close> is that reader, a definition of the specification side
  and not of the program: it splits the text at single spaces into first operand,
  operator and second operand, and reads each operand as a decimal integer with an
  optional minus sign.
\<close>

definition digit_value :: "char \<rightharpoonup> nat" where
  "digit_value =
     [CHR ''0'' \<mapsto> 0, CHR ''1'' \<mapsto> 1, CHR ''2'' \<mapsto> 2, CHR ''3'' \<mapsto> 3, CHR ''4'' \<mapsto> 4,
      CHR ''5'' \<mapsto> 5, CHR ''6'' \<mapsto> 6, CHR ''7'' \<mapsto> 7, CHR ''8'' \<mapsto> 8, CHR ''9'' \<mapsto> 9]"

fun parse_digits :: "nat \<Rightarrow> string \<Rightarrow> nat option" where
  "parse_digits acc [] = Some acc"
| "parse_digits acc (c # cs) =
     (case digit_value c of
        None \<Rightarrow> None
      | Some d \<Rightarrow> parse_digits (10 * acc + d) cs)"

definition parse_nat :: "string \<Rightarrow> nat option" where
  "parse_nat s = (if s = [] then None else parse_digits 0 s)"

definition parse_int :: "string \<Rightarrow> int option" where
  "parse_int s =
     (case s of
        [] \<Rightarrow> None
      | c # cs \<Rightarrow>
          if c = CHR ''-'' then map_option (\<lambda>n. - int n) (parse_nat cs)
          else map_option int (parse_nat s))"

fun split_on :: "char \<Rightarrow> string \<Rightarrow> string list" where
  "split_on c [] = [[]]"
| "split_on c (x # xs) =
     (if x = c then [] # split_on c xs
      else (case split_on c xs of
              [] \<Rightarrow> [[x]]
            | w # ws \<Rightarrow> (x # w) # ws))"

definition parse_expression :: "string \<Rightarrow> (int \<times> string \<times> int) option" where
  "parse_expression s =
     (case split_on (CHR '' '') s of
        [x, opr, y] \<Rightarrow>
          (case parse_int x of
             None \<Rightarrow> None
           | Some a \<Rightarrow>
              (case parse_int y of
                 None \<Rightarrow> None
               | Some b \<Rightarrow> Some (a, opr, b)))
      | _ \<Rightarrow> None)"

section \<open>Properties\<close>

subsection \<open>Drawing and rendering numbers\<close>

lemma randint_Inr:
  "randint a b g = Inr (v, g') \<Longrightarrow> a \<le> v \<and> v \<le> b \<and> g' = stl g"
proof -
  assume r: "randint a b g = Inr (v, g')"
  then have ab: "a \<le> b" by (auto simp: randint_def split: if_splits)
  from r ab have v: "v = a + int (shd g mod nat (b - a + 1))" and g': "g' = stl g"
    by (auto simp: randint_def)
  have "shd g mod nat (b - a + 1) < nat (b - a + 1)" using ab by simp
  then have "int (shd g mod nat (b - a + 1)) \<le> b - a" using ab by linarith
  with v g' show ?thesis by simp
qed

lemma randint_total:
  assumes "a \<le> b"
  shows "\<exists>v. randint a b g = Inr (v, stl g) \<and> a \<le> v \<and> v \<le> b"
proof -
  from assms obtain v where r: "randint a b g = Inr (v, stl g)"
    by (simp add: randint_def)
  with randint_Inr [OF r] show ?thesis by blast
qed

lemma randint_any_value:
  assumes "a \<le> v" "v \<le> b"
  shows "randint a b (nat (v - a) ## g) = Inr (v, g)"
proof -
  have "nat (v - a) < nat (b - a + 1)" using assms by linarith
  then have "nat (v - a) mod nat (b - a + 1) = nat (v - a)" by simp
  with assms show ?thesis by (simp add: randint_def)
qed

lemma digit_value_digit_char: "d < 10 \<Longrightarrow> digit_value (digit_char d) = Some d"
proof -
  assume "d < 10"
  then have "d = 0 \<or> d = 1 \<or> d = 2 \<or> d = 3 \<or> d = 4 \<or> d = 5 \<or> d = 6
    \<or> d = 7 \<or> d = 8 \<or> d = 9" by arith
  then show ?thesis
    by (elim disjE) (simp_all add: digit_value_def digit_char_def)
qed

lemma parse_digits_append:
  "parse_digits acc (xs @ ys) =
     (case parse_digits acc xs of None \<Rightarrow> None | Some acc' \<Rightarrow> parse_digits acc' ys)"
  by (induction xs arbitrary: acc) (auto split: option.splits)

lemma parse_digits_str_nat: "parse_digits 0 (str_nat n) = Some n"
proof (induction n rule: str_nat.induct)
  case (1 n)
  show ?case
  proof (cases "n < 10")
    case True
    then show ?thesis
      by (subst str_nat.simps) (simp add: digit_value_digit_char)
  next
    case False
    with 1 have ih: "parse_digits 0 (str_nat (n div 10)) = Some (n div 10)" by simp
    have "n mod 10 < 10" by simp
    then have dv: "digit_value (digit_char (n mod 10)) = Some (n mod 10)"
      by (rule digit_value_digit_char)
    from False show ?thesis
      by (subst str_nat.simps) (simp add: parse_digits_append ih dv)
  qed
qed

lemma str_nat_not_Nil: "str_nat n \<noteq> []"
  by (subst str_nat.simps) simp

lemma digit_char_in: "d < 10 \<Longrightarrow> digit_char d \<in> set ''0123456789''"
  unfolding digit_char_def by (rule nth_mem) simp

lemma set_str_nat: "set (str_nat n) \<subseteq> set ''0123456789''"
proof (induction n rule: str_nat.induct)
  case (1 n)
  show ?case
  proof (cases "n < 10")
    case True
    with digit_char_in [of n] show ?thesis
      by (subst str_nat.simps) simp
  next
    case False
    with 1 have ih: "set (str_nat (n div 10)) \<subseteq> set ''0123456789''" by simp
    have "digit_char (n mod 10) \<in> set ''0123456789''"
      by (rule digit_char_in) simp
    with ih False show ?thesis
      by (subst str_nat.simps) simp
  qed
qed

lemma parse_nat_str_nat: "parse_nat (str_nat n) = Some n"
  by (simp add: parse_nat_def str_nat_not_Nil parse_digits_str_nat)

lemma hd_str_nat: "str_nat n = c # cs \<Longrightarrow> c \<noteq> CHR ''-''"
  using set_str_nat [of n] by auto

lemma parse_int_str: "parse_int (str i) = Some i"
proof (cases "i < 0")
  case True
  then show ?thesis
    by (simp add: parse_int_def str_def parse_nat_str_nat)
next
  case False
  obtain c cs where s: "str_nat (nat i) = c # cs"
    using str_nat_not_Nil [of "nat i"] by (cases "str_nat (nat i)") auto
  from hd_str_nat [OF s] have "c \<noteq> CHR ''-''" .
  with False s parse_nat_str_nat [of "nat i"] show ?thesis
    by (simp add: parse_int_def str_def)
qed

lemma no_space_str: "CHR '' '' \<notin> set (str i)"
  using set_str_nat [of "nat i"] set_str_nat [of "nat (- i)"]
  by (auto simp: str_def)

lemma split_on_plain: "c \<notin> set u \<Longrightarrow> split_on c u = [u]"
  by (induction u) auto

lemma split_on_append: "c \<notin> set u \<Longrightarrow> split_on c (u @ c # v) = u # split_on c v"
  by (induction u) auto

lemma parse_expression_render:
  assumes "CHR '' '' \<notin> set opr"
  shows "parse_expression (str a @ '' '' @ opr @ '' '' @ str b) = Some (a, opr, b)"
proof -
  have "split_on (CHR '' '') (str a @ CHR '' '' # (opr @ CHR '' '' # str b))
          = [str a, opr, str b]"
    using assms by (simp add: split_on_append split_on_plain no_space_str)
  then show ?thesis
    by (simp add: parse_expression_def parse_int_str)
qed

subsection \<open>Single problems\<close>

lemma no_space_div: "CHR '' '' \<notin> set (bsl # ''div'')"
  by (simp add: bsl_def)

lemma no_space_times: "CHR '' '' \<notin> set (bsl # ''times'')"
  by (simp add: bsl_def)

lemma generate_problem_division:
  fixes min_num max_num :: int
  assumes "max 1 min_num \<le> max_num" "min_num \<le> max_num"
  shows "\<exists>b answer.
           generate_problem ''division'' min_num max_num g =
             Inr ((str (b * answer) @ '' '' @ (bsl # ''div'') @ '' '' @ str b, answer), stl (stl g))
           \<and> max 1 min_num \<le> b \<and> b \<le> max_num
           \<and> min_num \<le> answer \<and> answer \<le> max_num"
proof -
  from randint_total [OF assms(1)] obtain b
    where b: "randint (max 1 min_num) max_num g = Inr (b, stl g)"
      and bb: "max 1 min_num \<le> b" "b \<le> max_num" by blast
  from randint_total [OF assms(2)] obtain answer
    where q: "randint min_num max_num (stl g) = Inr (answer, stl (stl g))"
      and qb: "min_num \<le> answer" "answer \<le> max_num" by blast
  have "generate_problem ''division'' min_num max_num g =
          Inr ((str (b * answer) @ '' '' @ (bsl # ''div'') @ '' '' @ str b, answer), stl (stl g))"
    by (simp add: generate_problem_def b q)
  with bb qb show ?thesis by blast
qed

text \<open>
  Claim C1. With \<open>min_num < max_num\<close> and \<open>1 \<le> min_num\<close>, a division problem is
  always returned, after exactly two draws. Its expression renders a dividend \<open>a\<close> and a
  divisor \<open>b\<close> (read back by \<open>parse_expression\<close>) such that \<open>a\<close> is the product of \<open>b\<close>
  and the returned answer, hence divisible by \<open>b\<close> without remainder with the answer as
  quotient; \<open>b\<close> is not zero and lies in \<open>[max 1 min_num, max_num]\<close>, and the answer lies
  in \<open>[min_num, max_num]\<close>. The two draws are the divisor and the quotient: the dividend
  is not drawn.
\<close>

theorem division_exact:
  fixes min_num max_num :: int
  assumes "min_num < max_num" and "1 \<le> min_num"
  shows "\<exists>a b answer.
           generate_problem ''division'' min_num max_num g =
             Inr ((str a @ '' '' @ (bsl # ''div'') @ '' '' @ str b, answer), stl (stl g))
           \<and> parse_expression (str a @ '' '' @ (bsl # ''div'') @ '' '' @ str b)
               = Some (a, bsl # ''div'', b)
           \<and> a = b * answer \<and> b \<noteq> 0 \<and> a mod b = 0 \<and> a div b = answer
           \<and> max 1 min_num \<le> b \<and> b \<le> max_num
           \<and> min_num \<le> answer \<and> answer \<le> max_num"
proof -
  from assms have "max 1 min_num \<le> max_num" "min_num \<le> max_num" by simp_all
  from generate_problem_division [OF this, of g] obtain b answer
    where gp: "generate_problem ''division'' min_num max_num g =
             Inr ((str (b * answer) @ '' '' @ (bsl # ''div'') @ '' '' @ str b, answer), stl (stl g))"
      and bb: "max 1 min_num \<le> b" "b \<le> max_num"
      and qb: "min_num \<le> answer" "answer \<le> max_num" by blast
  from bb have nz: "b \<noteq> 0" by simp
  have pe: "parse_expression (str (b * answer) @ '' '' @ (bsl # ''div'') @ '' '' @ str b)
              = Some (b * answer, bsl # ''div'', b)"
    by (rule parse_expression_render [OF no_space_div])
  from nz have md: "(b * answer) mod b = 0" "(b * answer) div b = answer" by simp_all
  show ?thesis
    using gp pe nz bb qb md
    by - (rule exI [of _ "b * answer"], rule exI [of _ b], rule exI [of _ answer], simp)
qed

theorem division_exact_witness:
  "(1::int) < 10 \<and> (1::int) \<le> 1 \<and>
   generate_problem ''division'' 1 10 (3 ## 14 ## sconst 0) =
     Inr ((''20 '' @ (bsl # ''div'') @ '' 4'', 5), sconst 0) \<and>
   (\<exists>a b answer.
      generate_problem ''division'' 1 10 (3 ## 14 ## sconst 0) =
        Inr ((str a @ '' '' @ (bsl # ''div'') @ '' '' @ str b, answer), sconst 0)
      \<and> a = b * answer \<and> b \<noteq> 0)"
proof -
  have h1: "(1::int) < 10" and h2: "(1::int) \<le> 1" by simp_all
  have ev: "generate_problem ''division'' 1 10 (3 ## 14 ## sconst 0) =
     Inr ((''20 '' @ (bsl # ''div'') @ '' 4'', 5), sconst 0)"
    by (simp add: generate_problem_def randint_def str_def str_nat.simps digit_char_def)
  from division_exact [OF h1 h2, of "3 ## 14 ## sconst 0"] obtain a b answer
    where "generate_problem ''division'' 1 10 (3 ## 14 ## sconst 0) =
        Inr ((str a @ '' '' @ (bsl # ''div'') @ '' '' @ str b, answer), stl (stl (3 ## 14 ## sconst 0)))"
      and "a = b * answer" "b \<noteq> 0" by blast
  then have "\<exists>a b answer.
      generate_problem ''division'' 1 10 (3 ## 14 ## sconst 0) =
        Inr ((str a @ '' '' @ (bsl # ''div'') @ '' '' @ str b, answer), sconst 0)
      \<and> a = b * answer \<and> b \<noteq> 0" by auto
  with h1 h2 ev show ?thesis by blast
qed

text \<open>
  Claim C2. With \<open>min_num \<le> max_num\<close>, a subtraction problem is always returned, after
  exactly two draws. Its expression renders operands \<open>a\<close> and \<open>b\<close> with \<open>a\<close> in
  \<open>[min_num, max_num]\<close> and \<open>b\<close> in \<open>[min_num, a]\<close>, so \<open>b \<le> a\<close>, and the returned answer
  is \<open>a - b\<close>, which is not negative.
\<close>

theorem subtraction_non_negative:
  fixes min_num max_num :: int
  assumes "min_num \<le> max_num"
  shows "\<exists>a b answer.
           generate_problem ''subtraction'' min_num max_num g =
             Inr ((str a @ '' - '' @ str b, answer), stl (stl g))
           \<and> parse_expression (str a @ '' - '' @ str b) = Some (a, ''-'', b)
           \<and> min_num \<le> a \<and> a \<le> max_num
           \<and> min_num \<le> b \<and> b \<le> a
           \<and> answer = a - b \<and> 0 \<le> answer"
proof -
  from randint_total [OF assms] obtain a
    where a: "randint min_num max_num g = Inr (a, stl g)"
      and ab: "min_num \<le> a" "a \<le> max_num" by blast
  from randint_total [OF ab(1)] obtain b
    where b: "randint min_num a (stl g) = Inr (b, stl (stl g))"
      and bb: "min_num \<le> b" "b \<le> a" by blast
  have gp: "generate_problem ''subtraction'' min_num max_num g =
          Inr ((str a @ '' - '' @ str b, a - b), stl (stl g))"
    by (simp add: generate_problem_def a b)
  have pe: "parse_expression (str a @ '' '' @ ''-'' @ '' '' @ str b) = Some (a, ''-'', b)"
    by (rule parse_expression_render) simp
  show ?thesis
    using gp pe ab bb
    by - (rule exI [of _ a], rule exI [of _ b], rule exI [of _ "a - b"], simp)
qed

theorem subtraction_non_negative_witness:
  "(0::int) \<le> 20 \<and>
   generate_problem ''subtraction'' 0 20 (3 ## 14 ## sconst 0) =
     Inr ((''3 - 2'', 1), sconst 0) \<and>
   (\<exists>a b answer.
      generate_problem ''subtraction'' 0 20 (3 ## 14 ## sconst 0) =
        Inr ((str a @ '' - '' @ str b, answer), sconst 0)
      \<and> b \<le> a \<and> 0 \<le> answer)"
proof -
  have h: "(0::int) \<le> 20" by simp
  have ev: "generate_problem ''subtraction'' 0 20 (3 ## 14 ## sconst 0) =
     Inr ((''3 - 2'', 1), sconst 0)"
    by (simp add: generate_problem_def randint_def str_def str_nat.simps digit_char_def)
  from subtraction_non_negative [OF h, of "3 ## 14 ## sconst 0"] obtain a b answer
    where "generate_problem ''subtraction'' 0 20 (3 ## 14 ## sconst 0) =
        Inr ((str a @ '' - '' @ str b, answer), stl (stl (3 ## 14 ## sconst 0)))"
      and "b \<le> a" "0 \<le> answer" by blast
  then have "\<exists>a b answer.
      generate_problem ''subtraction'' 0 20 (3 ## 14 ## sconst 0) =
        Inr ((str a @ '' - '' @ str b, answer), sconst 0)
      \<and> b \<le> a \<and> 0 \<le> answer" by auto
  with h ev show ?thesis by blast
qed

lemma generate_problem_addition:
  fixes min_num max_num :: int
  assumes "min_num \<le> max_num"
  shows "\<exists>a b.
           generate_problem ''addition'' min_num max_num g =
             Inr ((str a @ '' + '' @ str b, a + b), stl (stl g))
           \<and> parse_expression (str a @ '' + '' @ str b) = Some (a, ''+'', b)
           \<and> min_num \<le> a \<and> a \<le> max_num \<and> min_num \<le> b \<and> b \<le> max_num"
proof -
  from randint_total [OF assms] obtain a
    where a: "randint min_num max_num g = Inr (a, stl g)"
      and ab: "min_num \<le> a" "a \<le> max_num" by blast
  from randint_total [OF assms] obtain b
    where b: "randint min_num max_num (stl g) = Inr (b, stl (stl g))"
      and bb: "min_num \<le> b" "b \<le> max_num" by blast
  have gp: "generate_problem ''addition'' min_num max_num g =
          Inr ((str a @ '' + '' @ str b, a + b), stl (stl g))"
    by (simp add: generate_problem_def a b)
  have pe: "parse_expression (str a @ '' '' @ ''+'' @ '' '' @ str b) = Some (a, ''+'', b)"
    by (rule parse_expression_render) simp
  show ?thesis
    using gp pe ab bb
    by - (rule exI [of _ a], rule exI [of _ b], simp)
qed

lemma generate_problem_multiplication:
  fixes min_num max_num :: int
  assumes "min_num \<le> max_num"
  shows "\<exists>a b.
           generate_problem ''multiplication'' min_num max_num g =
             Inr ((str a @ '' '' @ (bsl # ''times'') @ '' '' @ str b, a * b), stl (stl g))
           \<and> parse_expression (str a @ '' '' @ (bsl # ''times'') @ '' '' @ str b)
                = Some (a, bsl # ''times'', b)
           \<and> min_num \<le> a \<and> a \<le> max_num \<and> min_num \<le> b \<and> b \<le> max_num"
proof -
  from randint_total [OF assms] obtain a
    where a: "randint min_num max_num g = Inr (a, stl g)"
      and ab: "min_num \<le> a" "a \<le> max_num" by blast
  from randint_total [OF assms] obtain b
    where b: "randint min_num max_num (stl g) = Inr (b, stl (stl g))"
      and bb: "min_num \<le> b" "b \<le> max_num" by blast
  have gp: "generate_problem ''multiplication'' min_num max_num g =
          Inr ((str a @ '' '' @ (bsl # ''times'') @ '' '' @ str b, a * b), stl (stl g))"
    by (simp add: generate_problem_def a b)
  have pe: "parse_expression (str a @ '' '' @ (bsl # ''times'') @ '' '' @ str b)
              = Some (a, bsl # ''times'', b)"
    by (rule parse_expression_render [OF no_space_times])
  show ?thesis
    using gp pe ab bb
    by - (rule exI [of _ a], rule exI [of _ b], simp)
qed

lemma generate_problem_empty_range:
  fixes min_num max_num :: int
  assumes "max_num < min_num"
  shows "generate_problem ''addition'' min_num max_num g = Inl ValueError"
    and "generate_problem ''subtraction'' min_num max_num g = Inl ValueError"
    and "generate_problem ''multiplication'' min_num max_num g = Inl ValueError"
  using assms by (simp_all add: generate_problem_def randint_def)

text \<open>
  Claim C8. An addition or multiplication problem is returned exactly when
  \<open>min_num \<le> max_num\<close> (otherwise the first draw raises \<^verbatim>\<open>ValueError\<close>). The returned
  expression renders two operands \<open>a\<close> and \<open>b\<close>, read back by \<open>parse_expression\<close>, both
  in \<open>[min_num, max_num]\<close>, and the returned answer is \<open>a + b\<close>, respectively \<open>a * b\<close>.
\<close>

theorem addition_multiplication_answer:
  fixes min_num max_num :: int
  shows "(min_num \<le> max_num \<longrightarrow>
           (\<exists>a b. generate_problem ''addition'' min_num max_num g =
                    Inr ((str a @ '' + '' @ str b, a + b), stl (stl g))
                  \<and> parse_expression (str a @ '' + '' @ str b) = Some (a, ''+'', b)
                  \<and> min_num \<le> a \<and> a \<le> max_num \<and> min_num \<le> b \<and> b \<le> max_num)
         \<and> (\<exists>a b. generate_problem ''multiplication'' min_num max_num g =
                    Inr ((str a @ '' '' @ (bsl # ''times'') @ '' '' @ str b, a * b), stl (stl g))
                  \<and> parse_expression (str a @ '' '' @ (bsl # ''times'') @ '' '' @ str b)
                       = Some (a, bsl # ''times'', b)
                  \<and> min_num \<le> a \<and> a \<le> max_num \<and> min_num \<le> b \<and> b \<le> max_num))
       \<and> (max_num < min_num \<longrightarrow>
             generate_problem ''addition'' min_num max_num g = Inl ValueError
           \<and> generate_problem ''multiplication'' min_num max_num g = Inl ValueError)"
  using generate_problem_addition [of min_num max_num g]
    generate_problem_multiplication [of min_num max_num g]
    generate_problem_empty_range [of max_num min_num g]
  by blast

theorem addition_multiplication_answer_witness:
  "(0::int) \<le> 20 \<and> (4::int) < 5
   \<and> generate_problem ''addition'' 0 20 (3 ## 14 ## sconst 0) = Inr ((''3 + 14'', 17), sconst 0)
   \<and> generate_problem ''multiplication'' 0 20 (3 ## 14 ## sconst 0)
        = Inr ((''3 '' @ (bsl # ''times'') @ '' 14'', 42), sconst 0)
   \<and> (\<exists>a b. generate_problem ''addition'' 0 20 (3 ## 14 ## sconst 0) =
                    Inr ((str a @ '' + '' @ str b, a + b), sconst 0)
            \<and> 0 \<le> a \<and> a \<le> 20 \<and> 0 \<le> b \<and> b \<le> 20)
   \<and> (\<exists>a b. generate_problem ''multiplication'' 0 20 (3 ## 14 ## sconst 0) =
                    Inr ((str a @ '' '' @ (bsl # ''times'') @ '' '' @ str b, a * b), sconst 0)
            \<and> 0 \<le> a \<and> a \<le> 20 \<and> 0 \<le> b \<and> b \<le> 20)
   \<and> generate_problem ''addition'' 5 4 (sconst 0) = Inl ValueError
   \<and> generate_problem ''multiplication'' 5 4 (sconst 0) = Inl ValueError"
proof -
  have ev1: "generate_problem ''addition'' 0 20 (3 ## 14 ## sconst 0) = Inr ((''3 + 14'', 17), sconst 0)"
    by (simp add: generate_problem_def randint_def str_def str_nat.simps digit_char_def)
  have ev2: "generate_problem ''multiplication'' 0 20 (3 ## 14 ## sconst 0)
        = Inr ((''3 '' @ (bsl # ''times'') @ '' 14'', 42), sconst 0)"
    by (simp add: generate_problem_def randint_def str_def str_nat.simps digit_char_def)
  have h1: "(0::int) \<le> 20" and h2: "(4::int) < 5" by simp_all
  show ?thesis
    using addition_multiplication_answer [of 0 20 "3 ## 14 ## sconst 0"]
      addition_multiplication_answer [of 5 4 "sconst 0"] ev1 ev2
    by simp blast
qed

text \<open>
  Claim C10. A result is bound only in the branches of the four operation names. For
  any other name \<^verbatim>\<open>generate_problem\<close> raises \<^verbatim>\<open>UnboundLocalError\<close> whatever the
  bounds and the draws are, so a call that returns a pair was given one of the four
  names.
\<close>

theorem unknown_operation_raises:
  fixes min_num max_num :: int
  shows "(opn \<notin> {''addition'', ''subtraction'', ''multiplication'', ''division''} \<longrightarrow>
            generate_problem opn min_num max_num g = Inl UnboundLocalError)
       \<and> ((\<exists>r. generate_problem opn min_num max_num g = Inr r) \<longrightarrow>
            opn \<in> {''addition'', ''subtraction'', ''multiplication'', ''division''})
       \<and> (generate_problem opn min_num max_num g = Inl UnboundLocalError \<longrightarrow>
            opn \<notin> {''addition'', ''subtraction'', ''multiplication'', ''division''})"
proof -
  have a: "opn \<notin> {''addition'', ''subtraction'', ''multiplication'', ''division''} \<Longrightarrow>
            generate_problem opn min_num max_num g = Inl UnboundLocalError"
    by (simp add: generate_problem_def)
  have b: "generate_problem opn min_num max_num g \<noteq> Inl UnboundLocalError"
    if "opn \<in> {''addition'', ''subtraction'', ''multiplication'', ''division''}"
    using that
    by (auto simp: generate_problem_def randint_def Let_def split: sum.splits if_splits)
  have c: "opn \<in> {''addition'', ''subtraction'', ''multiplication'', ''division''}"
    if "\<exists>r. generate_problem opn min_num max_num g = Inr r"
  proof (rule ccontr)
    assume "opn \<notin> {''addition'', ''subtraction'', ''multiplication'', ''division''}"
    then have "generate_problem opn min_num max_num g = Inl UnboundLocalError" by (rule a)
    with that show False by simp
  qed
  from a b c show ?thesis by blast
qed

theorem unknown_operation_raises_witness:
  "''modulo'' \<notin> {''addition'', ''subtraction'', ''multiplication'', ''division''}
   \<and> generate_problem ''modulo'' 0 20 (sconst 0) = Inl UnboundLocalError
   \<and> generate_problem ''addition'' 0 20 (sconst 0) = Inr ((''0 + 0'', 0), sconst 0)
   \<and> ''addition'' \<in> {''addition'', ''subtraction'', ''multiplication'', ''division''}"
proof -
  have ev: "generate_problem ''addition'' 0 20 (sconst 0) = Inr ((''0 + 0'', 0), sconst 0)"
    by (simp add: generate_problem_def randint_def str_def str_nat.simps digit_char_def)
  have n: "''modulo'' \<notin> {''addition'', ''subtraction'', ''multiplication'', ''division''}"
    by simp
  from n ev unknown_operation_raises [of "''modulo''" 0 20 "sconst 0"]
    unknown_operation_raises [of "''addition''" 0 20 "sconst 0"]
  show ?thesis by simp
qed

text \<open>
  Claim C9. With \<open>1 \<le> min_num < max_num\<close> the dividend of every division problem lies
  between \<open>min_num * min_num\<close> and \<open>max_num * max_num\<close>. It is not confined to
  \<open>[min_num, max_num]\<close>: some stream of draws yields the divisor \<open>max_num\<close> and the
  quotient \<open>max_num\<close>, whose dividend \<open>max_num * max_num\<close> exceeds \<open>max_num\<close>.
\<close>

theorem division_dividend_range:
  fixes min_num max_num :: int
  assumes "1 \<le> min_num" and "min_num < max_num"
  shows "(\<exists>a b answer.
            generate_problem ''division'' min_num max_num g =
              Inr ((str a @ '' '' @ (bsl # ''div'') @ '' '' @ str b, answer), stl (stl g))
            \<and> parse_expression (str a @ '' '' @ (bsl # ''div'') @ '' '' @ str b)
                 = Some (a, bsl # ''div'', b)
            \<and> min_num * min_num \<le> a \<and> a \<le> max_num * max_num)
       \<and> (\<exists>g' a b answer.
            generate_problem ''division'' min_num max_num g' =
              Inr ((str a @ '' '' @ (bsl # ''div'') @ '' '' @ str b, answer), stl (stl g'))
            \<and> parse_expression (str a @ '' '' @ (bsl # ''div'') @ '' '' @ str b)
                 = Some (a, bsl # ''div'', b)
            \<and> max_num < a \<and> a = max_num * max_num)"
proof
  from assms have r: "max 1 min_num \<le> max_num" "min_num \<le> max_num" by simp_all
  from generate_problem_division [OF r, of g] obtain b answer
    where gp: "generate_problem ''division'' min_num max_num g =
             Inr ((str (b * answer) @ '' '' @ (bsl # ''div'') @ '' '' @ str b, answer), stl (stl g))"
      and bb: "max 1 min_num \<le> b" "b \<le> max_num"
      and qb: "min_num \<le> answer" "answer \<le> max_num" by blast
  have pe: "parse_expression (str (b * answer) @ '' '' @ (bsl # ''div'') @ '' '' @ str b)
              = Some (b * answer, bsl # ''div'', b)"
    by (rule parse_expression_render [OF no_space_div])
  from bb assms have mb: "min_num \<le> b" "0 \<le> b" by simp_all
  from assms have m0: "0 \<le> min_num" by simp
  have lo: "min_num * min_num \<le> b * answer"
    using mb(1) qb(1) mb(2) m0 by (rule mult_mono)
  from qb assms have "0 \<le> answer" by simp
  with assms have hi: "b * answer \<le> max_num * max_num"
    using bb(2) qb(2) by (intro mult_mono) simp_all
  show "\<exists>a b answer.
            generate_problem ''division'' min_num max_num g =
              Inr ((str a @ '' '' @ (bsl # ''div'') @ '' '' @ str b, answer), stl (stl g))
            \<and> parse_expression (str a @ '' '' @ (bsl # ''div'') @ '' '' @ str b)
                 = Some (a, bsl # ''div'', b)
            \<and> min_num * min_num \<le> a \<and> a \<le> max_num * max_num"
    using gp pe lo hi
    by - (rule exI [of _ "b * answer"], rule exI [of _ b], rule exI [of _ answer], simp)
next
  define g' where "g' = nat (max_num - max 1 min_num) ## nat (max_num - min_num) ## g"
  from assms have r: "max 1 min_num \<le> max_num" "min_num \<le> max_num" by simp_all
  have d1: "randint (max 1 min_num) max_num g' = Inr (max_num, nat (max_num - min_num) ## g)"
    unfolding g'_def using r(1) by (intro randint_any_value) simp_all
  have d2: "randint min_num max_num (nat (max_num - min_num) ## g) = Inr (max_num, g)"
    using r(2) by (intro randint_any_value) simp_all
  have s: "stl (stl g') = g" by (simp add: g'_def)
  have gp: "generate_problem ''division'' min_num max_num g' =
      Inr ((str (max_num * max_num) @ '' '' @ (bsl # ''div'') @ '' '' @ str max_num, max_num),
           stl (stl g'))"
    by (simp add: generate_problem_def d1 d2 s)
  have pe: "parse_expression (str (max_num * max_num) @ '' '' @ (bsl # ''div'') @ '' '' @ str max_num)
              = Some (max_num * max_num, bsl # ''div'', max_num)"
    by (rule parse_expression_render [OF no_space_div])
  from assms have "2 \<le> max_num" by simp
  then have "max_num * 2 \<le> max_num * max_num" by (intro mult_left_mono) simp_all
  with \<open>2 \<le> max_num\<close> have gt: "max_num < max_num * max_num" by simp
  show "\<exists>g' a b answer.
            generate_problem ''division'' min_num max_num g' =
              Inr ((str a @ '' '' @ (bsl # ''div'') @ '' '' @ str b, answer), stl (stl g'))
            \<and> parse_expression (str a @ '' '' @ (bsl # ''div'') @ '' '' @ str b)
                 = Some (a, bsl # ''div'', b)
            \<and> max_num < a \<and> a = max_num * max_num"
    using gp pe gt
    by - (rule exI [of _ g'], rule exI [of _ "max_num * max_num"], rule exI [of _ max_num],
          rule exI [of _ max_num], simp)
qed

theorem division_dividend_range_witness:
  "(1::int) \<le> 1 \<and> (1::int) < 10
   \<and> generate_problem ''division'' 1 10 (9 ## 9 ## sconst 0) =
       Inr ((''100 '' @ (bsl # ''div'') @ '' 10'', 10), sconst 0)
   \<and> (\<exists>a b answer.
        generate_problem ''division'' 1 10 (9 ## 9 ## sconst 0) =
          Inr ((str a @ '' '' @ (bsl # ''div'') @ '' '' @ str b, answer), sconst 0)
        \<and> 1 * 1 \<le> a \<and> a \<le> 10 * 10)"
proof -
  have h1: "(1::int) \<le> 1" and h2: "(1::int) < 10" by simp_all
  have ev: "generate_problem ''division'' 1 10 (9 ## 9 ## sconst 0) =
       Inr ((''100 '' @ (bsl # ''div'') @ '' 10'', 10), sconst 0)"
    by (simp add: generate_problem_def randint_def str_def str_nat.simps digit_char_def)
  from division_dividend_range [OF h1 h2, of "9 ## 9 ## sconst 0"] ev h1 h2
  show ?thesis by simp blast
qed

subsection \<open>The problem set\<close>

lemma generate_problem_returns:
  fixes min_num max_num :: int
  assumes "opn \<in> {''addition'', ''subtraction'', ''multiplication'', ''division''}"
    and "min_num \<le> max_num"
    and "opn = ''division'' \<longrightarrow> 1 \<le> max_num"
  shows "\<exists>p. generate_problem opn min_num max_num g = Inr (p, stl (stl g))"
proof -
  from assms(1) consider "opn = ''addition''" | "opn = ''subtraction''"
    | "opn = ''multiplication''" | "opn = ''division''" by auto
  then show ?thesis
  proof cases
    case 1
    with generate_problem_addition [OF assms(2), of g] show ?thesis by blast
  next
    case 2
    from randint_total [OF assms(2)] obtain a
      where a: "randint min_num max_num g = Inr (a, stl g)" and "min_num \<le> a" by blast
    from randint_total [OF this(2)] obtain b
      where b: "randint min_num a (stl g) = Inr (b, stl (stl g))" by blast
    from 2 show ?thesis by (simp add: generate_problem_def a b)
  next
    case 3
    with generate_problem_multiplication [OF assms(2), of g] show ?thesis by blast
  next
    case 4
    with assms have "max 1 min_num \<le> max_num" by simp
    from generate_problem_division [OF this assms(2), of g] 4 show ?thesis by blast
  qed
qed

lemma generate_loop_indexed:
  assumes ret: "\<And>g. \<exists>p. generate_problem opn lo hi g = Inr (p, stl (stl g))"
  shows "\<exists>ps. generate_loop opn lo hi k acc g = Inr (acc @ ps, sdrop (2 * k) g)
           \<and> length ps = k
           \<and> (\<forall>i<k. generate_problem opn lo hi (sdrop (2 * i) g)
                       = Inr (ps ! i, sdrop (2 * i + 2) g))"
proof (induction k arbitrary: acc g)
  case 0
  show ?case by simp
next
  case (Suc k)
  from ret [of g] obtain p where p: "generate_problem opn lo hi g = Inr (p, stl (stl g))"
    by blast
  from Suc.IH [of "acc @ [p]" "stl (stl g)"] obtain ps
    where l: "generate_loop opn lo hi k (acc @ [p]) (stl (stl g))
                = Inr ((acc @ [p]) @ ps, sdrop (2 * k) (stl (stl g)))"
      and n: "length ps = k"
      and e: "\<forall>i<k. generate_problem opn lo hi (sdrop (2 * i) (stl (stl g)))
                       = Inr (ps ! i, sdrop (2 * i + 2) (stl (stl g)))"
    by blast
  have 1: "generate_loop opn lo hi (Suc k) acc g = Inr (acc @ p # ps, sdrop (2 * Suc k) g)"
    using p l by (cases p) simp
  have 2: "generate_problem opn lo hi (sdrop (2 * i) g) = Inr ((p # ps) ! i, sdrop (2 * i + 2) g)"
    if "i < Suc k" for i
  proof (cases i)
    case 0
    with p show ?thesis by simp
  next
    case (Suc j)
    with that have "j < k" by simp
    with e have "generate_problem opn lo hi (sdrop (2 * j) (stl (stl g)))
                       = Inr (ps ! j, sdrop (2 * j + 2) (stl (stl g)))" by blast
    with Suc show ?thesis by simp
  qed
  from 1 2 n show ?case
    by - (rule exI [of _ "p # ps"], simp)
qed

lemma sdrop_sconst: "sdrop n (sconst r) = sconst r"
  by (induction n) simp_all

text \<open>
  Claim C3, as amended. For one of the four operations, \<open>min_num < max_num\<close>, a positive
  count and, when the operation is division, \<open>1 \<le> max_num\<close>, \<^verbatim>\<open>generate_problems\<close>
  returns a list of exactly \<open>num_questions\<close> pairs. The pair at index \<open>i\<close> is what the
  single-problem generator returns on the draws left after the \<open>i\<close> earlier calls (two
  draws each), so the calls are made in order and no pair depends on another pair.
  Nothing is removed: on a constant stream of draws the list is the same problem
  repeated \<open>num_questions\<close> times.
\<close>

theorem generate_problems_count:
  fixes min_num max_num num_questions :: int
  assumes "opn \<in> {''addition'', ''subtraction'', ''multiplication'', ''division''}"
    and "min_num < max_num"
    and "0 < num_questions"
    and "opn = ''division'' \<longrightarrow> 1 \<le> max_num"
  shows "(\<exists>problems.
            generate_problems opn min_num max_num num_questions g
              = Inr (problems, sdrop (2 * nat num_questions) g)
            \<and> int (length problems) = num_questions
            \<and> (\<forall>i<length problems.
                  generate_problem opn min_num max_num (sdrop (2 * i) g)
                    = Inr (problems ! i, sdrop (2 * i + 2) g)))
       \<and> (\<exists>p. generate_problems opn min_num max_num num_questions (sconst r)
                = Inr (replicate (nat num_questions) p, sconst r))"
proof
  from assms have le: "min_num \<le> max_num" by simp
  have ret: "\<exists>p. generate_problem opn min_num max_num g = Inr (p, stl (stl g))" for g
    using assms(1) le assms(4) by (rule generate_problem_returns)
  from generate_loop_indexed [of opn min_num max_num "nat num_questions" "[]" g, OF ret]
  obtain ps where l: "generate_loop opn min_num max_num (nat num_questions) [] g
                        = Inr (ps, sdrop (2 * nat num_questions) g)"
    and n: "length ps = nat num_questions"
    and e: "\<forall>i<nat num_questions. generate_problem opn min_num max_num (sdrop (2 * i) g)
                       = Inr (ps ! i, sdrop (2 * i + 2) g)"
    by auto
  from n assms(3) have "int (length ps) = num_questions" by simp
  with l n e show "\<exists>problems.
            generate_problems opn min_num max_num num_questions g
              = Inr (problems, sdrop (2 * nat num_questions) g)
            \<and> int (length problems) = num_questions
            \<and> (\<forall>i<length problems.
                  generate_problem opn min_num max_num (sdrop (2 * i) g)
                    = Inr (problems ! i, sdrop (2 * i + 2) g))"
    by - (rule exI [of _ ps], simp add: generate_problems_def)
  from ret [of "sconst r"] obtain p
    where p: "generate_problem opn min_num max_num (sconst r) = Inr (p, sconst r)"
    by auto
  from generate_loop_indexed [of opn min_num max_num "nat num_questions" "[]" "sconst r", OF ret]
  obtain qs where l: "generate_loop opn min_num max_num (nat num_questions) [] (sconst r)
                        = Inr (qs, sconst r)"
    and n: "length qs = nat num_questions"
    and e: "\<forall>i<nat num_questions. generate_problem opn min_num max_num (sconst r)
                       = Inr (qs ! i, sconst r)"
    by (auto simp: sdrop_sconst)
  have "qs = replicate (nat num_questions) p"
  proof (rule nth_equalityI)
    show "length qs = length (replicate (nat num_questions) p)" using n by simp
  next
    fix i assume "i < length qs"
    with n e p show "qs ! i = replicate (nat num_questions) p ! i" by simp
  qed
  with l show "\<exists>p. generate_problems opn min_num max_num num_questions (sconst r)
                = Inr (replicate (nat num_questions) p, sconst r)"
    by (auto simp: generate_problems_def)
qed

theorem generate_problems_count_witness:
  "''division'' \<in> {''addition'', ''subtraction'', ''multiplication'', ''division''}
   \<and> (1::int) < 10 \<and> (0::int) < 2 \<and> (1::int) \<le> 10
   \<and> generate_problems ''division'' 1 10 2 (3 ## 14 ## 0 ## 7 ## sconst 0)
        = Inr ([(''20 '' @ (bsl # ''div'') @ '' 4'', 5), (''8 '' @ (bsl # ''div'') @ '' 1'', 8)],
               sconst 0)
   \<and> (\<exists>problems.
         generate_problems ''division'' 1 10 2 (3 ## 14 ## 0 ## 7 ## sconst 0)
           = Inr (problems, sconst 0)
         \<and> int (length problems) = 2)"
proof -
  have h1: "''division'' \<in> {''addition'', ''subtraction'', ''multiplication'', ''division''}"
    and h2: "(1::int) < 10" and h3: "(0::int) < 2"
    and h4: "''division'' = ''division'' \<longrightarrow> (1::int) \<le> 10" by simp_all
  have ev: "generate_problems ''division'' 1 10 2 (3 ## 14 ## 0 ## 7 ## sconst 0)
        = Inr ([(''20 '' @ (bsl # ''div'') @ '' 4'', 5), (''8 '' @ (bsl # ''div'') @ '' 1'', 8)],
               sconst 0)"
    by (simp add: generate_problems_def numeral_2_eq_2 generate_problem_def randint_def
          str_def str_nat.simps digit_char_def)
  have h5: "(1::int) \<le> 10" by simp
  from generate_problems_count [OF h1 h2 h3 h4, of "3 ## 14 ## 0 ## 7 ## sconst 0" 0] ev h1 h2 h3 h5
  show ?thesis by simp
qed

text \<open>
  The claim as it was stated asks only for one of the four operations,
  \<open>min_num < max_num\<close> and a positive count. For division with \<open>max_num < 1\<close> the divisor
  range \<open>[max 1 min_num, max_num]\<close> is empty and the first draw raises.
\<close>

theorem generate_problems_division_raises:
  "''division'' \<in> {''addition'', ''subtraction'', ''multiplication'', ''division''}
   \<and> (- 5 :: int) < 0 \<and> (0::int) < 1
   \<and> generate_problems ''division'' (- 5) 0 1 (sconst 0) = Inl ValueError"
  by (simp add: generate_problems_def generate_problem_def randint_def)

subsection \<open>The parameters read for division\<close>

lemma read_range_division:
  "read_range to_int ''division'' lines = Inr ((mn, mx), rest) \<Longrightarrow> 1 \<le> mn"
proof (induction to_int "''division''" lines rule: read_range.induct)
  case (1 to_int)
  then show ?case by simp
next
  case (2 to_int l1 ls)
  then show ?case
    by (auto split: option.splits list.splits if_splits)
qed

lemma read_range_accepts:
  assumes "to_int l1 = Some mn" "to_int l2 = Some mx" "mn < mx"
  shows "read_range to_int ''division'' (l1 # l2 # lines) = Inr ((max 1 mn, mx), lines)"
  using assms by (simp add: max_def)

lemma get_user_input_division:
  assumes "get_user_input to_int strip lines = Inr (ps, rest)"
    and "operation ps = ''division''"
  shows "1 \<le> min_num ps"
proof -
  from assms(1) obtain c lines1 opn mn mx lines2
    where o: "operations c = Some opn"
      and rr: "read_range to_int opn lines1 = Inr ((mn, mx), lines2)"
      and ps: "operation ps = opn" "min_num ps = mn"
    by (auto simp: get_user_input_def split: sum.splits option.splits list.splits prod.splits)
  from ps assms(2) have "opn = ''division''" by simp
  with rr have "1 \<le> mn" by (auto dest: read_range_division)
  with ps show ?thesis by simp
qed

lemma generate_loop_elements:
  "generate_loop opn lo hi k acc g = Inr (ps, g') \<Longrightarrow> p \<in> set ps \<Longrightarrow>
     p \<in> set acc \<or> (\<exists>g0 g1. generate_problem opn lo hi g0 = Inr (p, g1))"
proof (induction k arbitrary: acc g)
  case 0
  then show ?case by simp
next
  case (Suc k)
  from Suc.prems(1) obtain q g1
    where q: "generate_problem opn lo hi g = Inr (q, g1)"
      and l: "generate_loop opn lo hi k (acc @ [q]) g1 = Inr (ps, g')"
    by (auto split: sum.splits prod.splits)
  from Suc.IH [OF l Suc.prems(2)]
  have "p \<in> set (acc @ [q]) \<or> (\<exists>g0 g1. generate_problem opn lo hi g0 = Inr (p, g1))" .
  with q show ?case by auto
qed

lemma generate_problem_division_Inr:
  assumes "generate_problem ''division'' lo hi g = Inr ((problem, answer), g')"
  shows "\<exists>b. problem = str (b * answer) @ '' '' @ (bsl # ''div'') @ '' '' @ str b
           \<and> parse_expression problem = Some (b * answer, bsl # ''div'', b)
           \<and> max 1 lo \<le> b \<and> b \<le> hi \<and> lo \<le> answer \<and> answer \<le> hi"
proof -
  from assms obtain b g1
    where b: "randint (max 1 lo) hi g = Inr (b, g1)"
      and q: "randint lo hi g1 = Inr (answer, g')"
      and p: "problem = str (b * answer) @ '' '' @ (bsl # ''div'') @ '' '' @ str b"
    by (auto simp: generate_problem_def split: sum.splits prod.splits)
  have pe: "parse_expression (str (b * answer) @ '' '' @ (bsl # ''div'') @ '' '' @ str b)
              = Some (b * answer, bsl # ''div'', b)"
    by (rule parse_expression_render [OF no_space_div])
  from randint_Inr [OF b] randint_Inr [OF q] p pe show ?thesis by blast
qed

text \<open>
  Claim C7. When the operation is division, an accepted pair of bounds with
  \<open>mn < mx\<close> is returned as \<open>(max 1 mn, mx)\<close>: a minimum below 1 is replaced by 1. So
  the parameters that \<^verbatim>\<open>get_user_input\<close> returns for division have \<open>1 \<le> min_num\<close>, and in
  every problem that \<^verbatim>\<open>main\<close> generates from them the divisor, the quotient and the
  dividend are at least \<open>min_num\<close> and hence at least 1.
\<close>

theorem division_minimum_coerced:
  "(to_int l1 = Some mn \<and> to_int l2 = Some mx \<and> mn < mx \<longrightarrow>
      read_range to_int ''division'' (l1 # l2 # rest) = Inr ((max 1 mn, mx), rest))
   \<and> (get_user_input to_int strip lines = Inr (ps, rest') \<and> operation ps = ''division'' \<longrightarrow>
        1 \<le> min_num ps)
   \<and> (main_problems to_int strip lines g = Inr (ps, problems) \<and> operation ps = ''division'' \<longrightarrow>
        1 \<le> min_num ps
        \<and> (\<forall>(problem, answer) \<in> set problems.
              \<exists>a b. parse_expression problem = Some (a, bsl # ''div'', b)
                \<and> a = b * answer
                \<and> min_num ps \<le> b \<and> 1 \<le> b
                \<and> min_num ps \<le> answer \<and> 1 \<le> answer
                \<and> 1 \<le> a))"
proof (intro conjI impI)
  assume "to_int l1 = Some mn \<and> to_int l2 = Some mx \<and> mn < mx"
  then show "read_range to_int ''division'' (l1 # l2 # rest) = Inr ((max 1 mn, mx), rest)"
    by (simp add: read_range_accepts)
next
  assume "get_user_input to_int strip lines = Inr (ps, rest') \<and> operation ps = ''division''"
  then show "1 \<le> min_num ps" by (auto dest: get_user_input_division)
next
  assume a: "main_problems to_int strip lines g = Inr (ps, problems) \<and> operation ps = ''division''"
  then obtain rest'' g' where gi: "get_user_input to_int strip lines = Inr (ps, rest'')"
    and gl: "generate_problems (operation ps) (min_num ps) (max_num ps) (num_questions ps) g
               = Inr (problems, g')"
    by (auto simp: main_problems_def split: sum.splits prod.splits)
  from gi a show "1 \<le> min_num ps" by (auto dest: get_user_input_division)
next
  assume a: "main_problems to_int strip lines g = Inr (ps, problems) \<and> operation ps = ''division''"
  then obtain rest'' g' where gi: "get_user_input to_int strip lines = Inr (ps, rest'')"
    and gl: "generate_problems (operation ps) (min_num ps) (max_num ps) (num_questions ps) g
               = Inr (problems, g')"
    by (auto simp: main_problems_def split: sum.splits prod.splits)
  from gi a have m: "1 \<le> min_num ps" by (auto dest: get_user_input_division)
  from a have d: "operation ps = ''division''" by simp
  show "\<forall>(problem, answer) \<in> set problems.
              \<exists>a b. parse_expression problem = Some (a, bsl # ''div'', b)
                \<and> a = b * answer
                \<and> min_num ps \<le> b \<and> 1 \<le> b
                \<and> min_num ps \<le> answer \<and> 1 \<le> answer
                \<and> 1 \<le> a"
  proof (clarify)
    fix problem answer
    assume "(problem, answer) \<in> set problems"
    with gl d generate_loop_elements
      [of "''division''" "min_num ps" "max_num ps" "nat (num_questions ps)" "[]" g problems g'
          "(problem, answer)"]
    obtain g0 g1 where "generate_problem ''division'' (min_num ps) (max_num ps) g0
                          = Inr ((problem, answer), g1)"
      by (auto simp: generate_problems_def)
    from generate_problem_division_Inr [OF this] obtain b
      where pe: "parse_expression problem = Some (b * answer, bsl # ''div'', b)"
        and bb: "max 1 (min_num ps) \<le> b" and qb: "min_num ps \<le> answer" by blast
    from bb m have b1: "min_num ps \<le> b" "1 \<le> b" by simp_all
    from qb m have q1: "1 \<le> answer" by simp
    from b1 q1 have "1 * 1 \<le> b * answer" by (intro mult_mono) simp_all
    then have a1: "1 \<le> b * answer" by simp
    show "\<exists>a b. parse_expression problem = Some (a, bsl # ''div'', b)
                \<and> a = b * answer
                \<and> min_num ps \<le> b \<and> 1 \<le> b
                \<and> min_num ps \<le> answer \<and> 1 \<le> answer
                \<and> 1 \<le> a"
      using pe b1 qb q1 a1
      by - (rule exI [of _ "b * answer"], rule exI [of _ b], simp)
  qed
qed

lemma parse_int_examples:
  "parse_int ''x'' = None" "parse_int ''4'' = Some 4" "parse_int ''-5'' = Some (- 5)"
  "parse_int ''10'' = Some 10" "parse_int ''2'' = Some 2"
  by (simp_all add: parse_int_def parse_nat_def digit_value_def)

theorem division_minimum_coerced_witness:
  "parse_int ''-5'' = Some (- 5) \<and> parse_int ''10'' = Some 10 \<and> (- 5 :: int) < 10
   \<and> read_range parse_int ''division'' [''-5'', ''10'', ''2'', ''Bob'']
        = Inr ((1, 10), [''2'', ''Bob''])
   \<and> get_user_input parse_int id [''x'', ''4'', ''-5'', ''10'', ''2'', ''Bob'']
        = Inr (\<lparr>operation = ''division'', min_num = 1, max_num = 10, num_questions = 2,
                student_name = ''Bob''\<rparr>, [])
   \<and> main_problems parse_int id [''x'', ''4'', ''-5'', ''10'', ''2'', ''Bob'']
          (3 ## 14 ## 0 ## 7 ## sconst 0)
        = Inr (\<lparr>operation = ''division'', min_num = 1, max_num = 10, num_questions = 2,
                student_name = ''Bob''\<rparr>,
               [(''20 '' @ (bsl # ''div'') @ '' 4'', 5), (''8 '' @ (bsl # ''div'') @ '' 1'', 8)])
   \<and> (\<exists>a b. parse_expression (''20 '' @ (bsl # ''div'') @ '' 4'') = Some (a, bsl # ''div'', b)
          \<and> a = b * 5 \<and> 1 \<le> b \<and> 1 \<le> a)
   \<and> (\<exists>a b. parse_expression (''8 '' @ (bsl # ''div'') @ '' 1'') = Some (a, bsl # ''div'', b)
          \<and> a = b * 8 \<and> 1 \<le> b \<and> 1 \<le> a)"
proof -
  let ?lines = "[''x'', ''4'', ''-5'', ''10'', ''2'', ''Bob'']"
  let ?g = "3 ## 14 ## 0 ## 7 ## sconst (0::nat)"
  let ?ps = "\<lparr>operation = ''division'', min_num = 1, max_num = 10, num_questions = 2,
                student_name = ''Bob''\<rparr>"
  let ?problems = "[(''20 '' @ (bsl # ''div'') @ '' 4'', 5 :: int), (''8 '' @ (bsl # ''div'') @ '' 1'', 8)]"
  have gi: "get_user_input parse_int id ?lines = Inr (?ps, [])"
    by (simp add: get_user_input_def parse_int_examples operations_def)
  have gp: "generate_problems ''division'' 1 10 2 ?g = Inr (?problems, sconst 0)"
    by (simp add: generate_problems_def numeral_2_eq_2 generate_problem_def randint_def
          str_def str_nat.simps digit_char_def)
  have mp: "main_problems parse_int id ?lines ?g = Inr (?ps, ?problems)"
    by (simp add: main_problems_def gi gp)
  have opd: "operation ?ps = ''division''" by simp
  note inst = division_minimum_coerced
    [of parse_int "''-5''" "- 5" "''10''" 10 "[''2'', ''Bob'']" id ?lines ?ps "[]" ?g ?problems]
  from inst parse_int_examples have rr:
    "read_range parse_int ''division'' [''-5'', ''10'', ''2'', ''Bob'']
        = Inr ((1, 10), [''2'', ''Bob''])" by simp
  from inst mp opd have al: "\<forall>(problem, answer) \<in> set ?problems.
        \<exists>a b. parse_expression problem = Some (a, bsl # ''div'', b)
          \<and> a = b * answer \<and> 1 \<le> b \<and> 1 \<le> answer \<and> 1 \<le> a"
    by simp
  from parse_int_examples rr gi mp al show ?thesis by simp
qed

text \<open>
  The minimum is replaced after the test \<open>mn < mx\<close>, so the bounds that are returned need
  not satisfy it any more: for division the input \<open>-5\<close> and \<open>0\<close> is accepted and returned as
  \<open>1\<close> and \<open>0\<close>, and generating a problem from these bounds raises \<^verbatim>\<open>ValueError\<close>.
\<close>

lemma coerced_range_empty:
  "read_range parse_int ''division'' [''-5'', ''0'', ''1'', ''Bob'']
     = Inr ((1, 0), [''1'', ''Bob''])"
  "main_problems parse_int id [''4'', ''-5'', ''0'', ''1'', ''Bob''] (sconst 0) = Inl ValueError"
  by (simp_all add: main_problems_def get_user_input_def operations_def parse_int_def
        parse_nat_def digit_value_def generate_problems_def generate_problem_def randint_def)

subsection \<open>The grid of the table\<close>

lemma pad_row_eq: "pad_row columns row = row @ replicate (columns - length row) '' & ''"
proof (induction columns row rule: pad_row.induct)
  case (1 columns row)
  show ?case
  proof (cases "length row < columns")
    case True
    then have "columns - length row = Suc (columns - Suc (length row))" by simp
    with True 1 show ?thesis
      by (subst pad_row.simps) simp
  next
    case False
    then show ?thesis by (subst pad_row.simps) simp
  qed
qed

lemma length_pad_row: "length row \<le> columns \<Longrightarrow> length (pad_row columns row) = columns"
  by (simp add: pad_row_eq)

lemma fill_problems_rows:
  "fill_problems columns sa n i ps row latex =
     latex @ concat (map row_line (closed_rows columns sa n i ps row))"
proof (induction ps arbitrary: i row latex)
  case Nil
  show ?case by simp
next
  case (Cons p ps)
  obtain problem answer where p: "p = (problem, answer)" by (cases p)
  show ?case unfolding p
    by (simp add: Let_def Cons.IH)
qed

lemma closed_rows_length:
  assumes "length row < columns" and "r \<in> set (closed_rows columns sa n i ps row)"
  shows "length r = columns"
  using assms
proof (induction ps arbitrary: i row)
  case Nil
  then show ?case by simp
next
  case (Cons p ps)
  obtain problem answer where p: "p = (problem, answer)" by (cases p)
  let ?row = "row @ [cell_of sa (i + 1) problem answer]"
  from Cons.prems(1) have le: "length ?row \<le> columns" and pos: "length ([]::string list) < columns"
    by simp_all
  show ?case
  proof (cases "length ?row = columns \<or> int i = int n - 1")
    case True
    with Cons.prems(2) p
    have "r = pad_row columns ?row \<or> r \<in> set (closed_rows columns sa n (i + 1) ps [])"
      by (auto simp: Let_def)
    then show ?thesis
    proof
      assume "r = pad_row columns ?row"
      with le show ?thesis by (simp only: length_pad_row)
    next
      assume "r \<in> set (closed_rows columns sa n (i + 1) ps [])"
      with pos show ?thesis by (rule Cons.IH)
    qed
  next
    case False
    with le have lt: "length ?row < columns" by simp
    from False Cons.prems(2) p have "r \<in> set (closed_rows columns sa n (i + 1) ps ?row)"
      by (auto simp: Let_def)
    with lt show ?thesis by (rule Cons.IH)
  qed
qed

lemma closed_rows_concat:
  assumes "i + length ps = n" and "length row < columns" and "ps \<noteq> []"
  shows "\<exists>k<columns. concat (closed_rows columns sa n i ps row) =
           row @ map (\<lambda>(j, problem, answer). cell_of sa (j + 1) problem answer) (enumerate i ps)
             @ replicate k '' & ''"
  using assms
proof (induction ps arbitrary: i row)
  case Nil
  then show ?case by simp
next
  case (Cons p ps)
  obtain problem answer where p: "p = (problem, answer)" by (cases p)
  let ?cell = "cell_of sa (i + 1) problem answer"
  let ?row = "row @ [?cell]"
  let ?cells = "\<lambda>i ps. map (\<lambda>(j, problem, answer). cell_of sa (j + 1) problem answer) (enumerate i ps)"
  from Cons.prems(2) have le: "length ?row \<le> columns" and pos: "length ([]::string list) < columns"
    by simp_all
  show ?case
  proof (cases "ps = []")
    case True
    with Cons.prems(1) have last: "int i = int n - 1" by simp
    have "concat (closed_rows columns sa n i (p # ps) row)
            = ?row @ replicate (columns - length ?row) '' & ''"
      using True last p by (simp add: Let_def pad_row_eq)
    moreover have "columns - length ?row < columns" using Cons.prems(2) by simp
    ultimately show ?thesis using True p
      by - (rule exI [of _ "columns - length ?row"], simp)
  next
    case False
    with Cons.prems(1) have notlast: "int i \<noteq> int n - 1" and n': "(i + 1) + length ps = n"
      by (cases ps; simp)+
    show ?thesis
    proof (cases "length ?row = columns")
      case True
      from Cons.IH [OF n' pos False] obtain k where k: "k < columns"
        and c: "concat (closed_rows columns sa n (i + 1) ps []) = [] @ ?cells (i + 1) ps @ replicate k '' & ''"
        by blast
      have "concat (closed_rows columns sa n i (p # ps) row)
              = pad_row columns ?row @ concat (closed_rows columns sa n (i + 1) ps [])"
        using True p by (simp add: Let_def)
      also have "pad_row columns ?row = ?row" using True by (simp add: pad_row_eq)
      finally have "concat (closed_rows columns sa n i (p # ps) row)
              = row @ ?cells i (p # ps) @ replicate k '' & ''"
        using c p by simp
      with k show ?thesis by blast
    next
      case neq: False
      with le have lt: "length ?row < columns" by simp
      from Cons.IH [OF n' lt False] obtain k where k: "k < columns"
        and c: "concat (closed_rows columns sa n (i + 1) ps ?row)
                  = ?row @ ?cells (i + 1) ps @ replicate k '' & ''"
        by blast
      have "concat (closed_rows columns sa n i (p # ps) row)
              = concat (closed_rows columns sa n (i + 1) ps ?row)"
        using neq notlast p by (simp add: Let_def)
      with c p have "concat (closed_rows columns sa n i (p # ps) row)
              = row @ ?cells i (p # ps) @ replicate k '' & ''" by simp
      with k show ?thesis by blast
    qed
  qed
qed

lemma length_concat_uniform:
  "\<forall>r\<in>set rows. length r = c \<Longrightarrow> length (concat rows) = length rows * c"
  by (induction rows) simp_all

lemma nth_concat_uniform:
  "\<forall>r\<in>set rows. length r = c \<Longrightarrow> r < length rows \<Longrightarrow> j < c \<Longrightarrow>
     rows ! r ! j = concat rows ! (r * c + j)"
proof (induction rows arbitrary: r)
  case Nil
  then show ?case by simp
next
  case (Cons x rows)
  show ?case
  proof (cases r)
    case 0
    with Cons.prems show ?thesis by (simp add: nth_append)
  next
    case (Suc r')
    with Cons.prems have "rows ! r' ! j = concat rows ! (r' * c + j)"
      by (intro Cons.IH) simp_all
    with Suc Cons.prems show ?thesis by (simp add: nth_append)
  qed
qed

lemma columns_for_pos: "0 < columns_for n"
  by (simp add: columns_for_def)

lemma table_rows_length:
  "r \<in> set (table_rows problems sa) \<Longrightarrow> length r = columns_for (length problems)"
proof -
  assume r: "r \<in> set (table_rows problems sa)"
  have "length ([]::string list) < columns_for (length problems)"
    by (simp add: columns_for_pos)
  then show ?thesis
    using r unfolding table_rows_def by (rule closed_rows_length)
qed

lemma table_rows_concat:
  "\<exists>k<columns_for (length problems).
     concat (table_rows problems sa) =
       map (\<lambda>(j, problem, answer). cell_of sa (j + 1) problem answer) (enumerate 0 problems)
         @ replicate k '' & ''"
proof (cases "problems = []")
  case True
  then show ?thesis
    by (intro exI [of _ 0]) (simp add: table_rows_def columns_for_pos)
next
  case False
  have "0 + length problems = length problems" by simp
  from closed_rows_concat [OF this _ False, of "[]" "columns_for (length problems)" sa]
  show ?thesis by (simp add: table_rows_def columns_for_pos)
qed

lemma table_rows_count:
  "length (table_rows problems sa) =
     (length problems + columns_for (length problems) - 1) div columns_for (length problems)"
proof -
  let ?c = "columns_for (length problems)"
  let ?rows = "table_rows problems sa"
  from table_rows_concat [of problems sa] obtain k where k: "k < ?c"
    and c: "concat ?rows =
       map (\<lambda>(j, problem, answer). cell_of sa (j + 1) problem answer) (enumerate 0 problems)
         @ replicate k '' & ''" by blast
  have "\<forall>r\<in>set ?rows. length r = ?c" by (simp add: table_rows_length)
  then have "length (concat ?rows) = length ?rows * ?c" by (rule length_concat_uniform)
  with c have e: "length ?rows * ?c = length problems + k" by simp
  have "(length problems + ?c - 1) div ?c = length ?rows"
  proof (rule div_nat_eqI)
    show "?c * length ?rows \<le> length problems + ?c - 1"
      using e k by (simp add: mult.commute)
    show "length problems + ?c - 1 < ?c * Suc (length ?rows)"
      using e k by (simp add: mult.commute)
  qed
  then show ?thesis by simp
qed

lemma generate_latex_rows:
  "generate_latex problems ps sa today =
     document_head ps sa today (columns_for (length problems))
       @ concat (map row_line (table_rows problems sa))
       @ document_tail sa"
  by (simp add: generate_latex_def Let_def fill_problems_rows table_rows_def)

text \<open>
  Claim C4. The column count that \<^verbatim>\<open>generate_latex\<close> uses for a list of \<open>n\<close> problems,
  in the column declaration of the table and for the length of its rows, is 3 when
  \<open>n \<le> 12\<close>, 4 when \<open>13 \<le> n \<le> 24\<close> and 5 when \<open>n > 24\<close>; so 12 problems give 3 columns,
  13 and 24 give 4, and 25 give 5.
\<close>

theorem column_count:
  "(n \<le> 12 \<longrightarrow> columns_for n = 3)
   \<and> (13 \<le> n \<and> n \<le> 24 \<longrightarrow> columns_for n = 4)
   \<and> (24 < n \<longrightarrow> columns_for n = 5)
   \<and> columns_for 12 = 3 \<and> columns_for 13 = 4 \<and> columns_for 24 = 4 \<and> columns_for 25 = 5
   \<and> (length problems = n \<longrightarrow>
        generate_latex problems ps sa today =
          document_head ps sa today (columns_for n)
            @ concat (map row_line (table_rows problems sa))
            @ document_tail sa)"
  by (auto simp: columns_for_def generate_latex_rows)

theorem column_count_witness:
  "(12::nat) \<le> 12 \<and> columns_for 12 = 3
   \<and> (13::nat) \<le> 13 \<and> (13::nat) \<le> 24 \<and> columns_for 13 = 4
   \<and> (24::nat) < 25 \<and> columns_for 25 = 5
   \<and> length [(''1 + 1'', 2::int)] = 1
   \<and> generate_latex [(''1 + 1'', 2)]
        \<lparr>operation = ''addition'', min_num = 0, max_num = 20, num_questions = 1,
          student_name = []\<rparr> True ''01/02/2026'' =
        document_head
          \<lparr>operation = ''addition'', min_num = 0, max_num = 20, num_questions = 1,
            student_name = []\<rparr> True ''01/02/2026'' 3
          @ concat (map row_line (table_rows [(''1 + 1'', 2)] True))
          @ document_tail True"
proof -
  let ?ps = "\<lparr>operation = ''addition'', min_num = 0, max_num = 20, num_questions = 1,
               student_name = []\<rparr>"
  show ?thesis
    using column_count [of 12 "[]" ?ps True "''01/02/2026''"]
      column_count [of 13 "[]" ?ps True "''01/02/2026''"]
      column_count [of 25 "[]" ?ps True "''01/02/2026''"]
      column_count [of 1 "[(''1 + 1'', 2)]" ?ps True "''01/02/2026''"]
    by simp
qed

lemma table_rows_nth:
  assumes "r < length (table_rows problems sa)" and "j < columns_for (length problems)"
  shows "table_rows problems sa ! r ! j =
           (if r * columns_for (length problems) + j < length problems
            then cell_of sa (r * columns_for (length problems) + j + 1)
                   (fst (problems ! (r * columns_for (length problems) + j)))
                   (snd (problems ! (r * columns_for (length problems) + j)))
            else '' & '')"
proof -
  let ?c = "columns_for (length problems)"
  let ?rows = "table_rows problems sa"
  let ?m = "r * ?c + j"
  let ?cells = "map (\<lambda>(j, problem, answer). cell_of sa (j + 1) problem answer)
                  (enumerate 0 problems)"
  from table_rows_concat [of problems sa] obtain k
    where c: "concat ?rows = ?cells @ replicate k '' & ''" by blast
  have u: "\<forall>x\<in>set ?rows. length x = ?c" by (simp add: table_rows_length)
  from u assms have n: "?rows ! r ! j = concat ?rows ! ?m" by (rule nth_concat_uniform)
  from u have "length (concat ?rows) = length ?rows * ?c" by (rule length_concat_uniform)
  with c have len: "length ?rows * ?c = length problems + k" by simp
  from assms have "Suc r * ?c \<le> length ?rows * ?c" by (intro mult_le_mono1) simp
  with assms(2) have "?m < length ?rows * ?c" by simp
  with len have bound: "?m < length problems + k" by simp
  show ?thesis
  proof (cases "?m < length problems")
    case True
    then have "(?cells @ replicate k '' & '') ! ?m = ?cells ! ?m" by (simp add: nth_append)
    also from True have "\<dots> = cell_of sa (?m + 1) (fst (problems ! ?m)) (snd (problems ! ?m))"
      by (simp add: nth_enumerate_eq case_prod_beta)
    finally show ?thesis using True n c by simp
  next
    case False
    with bound have "(?cells @ replicate k '' & '') ! ?m = '' & ''"
      by (simp add: nth_append)
    with False n c show ?thesis by simp
  qed
qed

lemma table_rows_not_Nil: "problems \<noteq> [] \<Longrightarrow> table_rows problems sa \<noteq> []"
proof
  assume ne: "problems \<noteq> []" and e: "table_rows problems sa = []"
  from table_rows_concat [of problems sa] e have "enumerate 0 problems = []" by auto
  then have "length (enumerate 0 problems) = 0" by simp
  with ne show False by simp
qed

text \<open>
  Claim C5. The table part of the document is the sequence of the lines of
  \<open>table_rows\<close>, and every one of these rows has exactly as many cells as the column
  count. There are as many rows as the cells need (none is left open, and a non-empty
  list gives at least one row), and read row by row the cells are the cells of the
  problems in their order, numbered from 1, followed only by fewer than a row of empty
  padding cells.
\<close>

theorem grid_rectangular:
  "generate_latex problems ps sa today =
     document_head ps sa today (columns_for (length problems))
       @ concat (map row_line (table_rows problems sa))
       @ document_tail sa
   \<and> (\<forall>row \<in> set (table_rows problems sa). length row = columns_for (length problems))
   \<and> length (table_rows problems sa) =
       (length problems + columns_for (length problems) - 1) div columns_for (length problems)
   \<and> (problems \<noteq> [] \<longrightarrow> table_rows problems sa \<noteq> [])
   \<and> (\<exists>k<columns_for (length problems).
         concat (table_rows problems sa) =
           map (\<lambda>(i, problem, answer). cell_of sa (i + 1) problem answer) (enumerate 0 problems)
             @ replicate k '' & '')"
  using generate_latex_rows [of problems ps sa today] table_rows_length [of _ problems sa]
    table_rows_count [of problems sa] table_rows_not_Nil [of problems sa]
    table_rows_concat [of problems sa]
  by blast

lemma table_rows_example:
  "table_rows [(''1 + 1'', 2), (''1 + 2'', 3), (''1 + 3'', 4), (''1 + 4'', 5)] sa =
     [[cell_of sa 1 ''1 + 1'' 2, cell_of sa 2 ''1 + 2'' 3, cell_of sa 3 ''1 + 3'' 4],
      [cell_of sa 4 ''1 + 4'' 5, '' & '', '' & '']]"
  by (simp add: table_rows_def columns_for_def Let_def pad_row_eq eval_nat_numeral)

theorem grid_rectangular_witness:
  "table_rows [(''1 + 1'', 2), (''1 + 2'', 3), (''1 + 3'', 4), (''1 + 4'', 5)] False =
     [[cell_of False 1 ''1 + 1'' 2, cell_of False 2 ''1 + 2'' 3, cell_of False 3 ''1 + 3'' 4],
      [cell_of False 4 ''1 + 4'' 5, '' & '', '' & '']]
   \<and> [cell_of False 4 ''1 + 4'' 5, '' & '', '' & '']
        \<in> set (table_rows [(''1 + 1'', 2), (''1 + 2'', 3), (''1 + 3'', 4), (''1 + 4'', 5)] False)
   \<and> length [cell_of False 4 ''1 + 4'' 5, '' & '', '' & '']
        = columns_for (length [(''1 + 1'', 2::int), (''1 + 2'', 3), (''1 + 3'', 4), (''1 + 4'', 5)])
   \<and> [(''1 + 1'', 2::int), (''1 + 2'', 3), (''1 + 3'', 4), (''1 + 4'', 5)] \<noteq> []
   \<and> length (table_rows [(''1 + 1'', 2), (''1 + 2'', 3), (''1 + 3'', 4), (''1 + 4'', 5)] False) = 2"
proof -
  let ?X = "[(''1 + 1'', 2::int), (''1 + 2'', 3), (''1 + 3'', 4), (''1 + 4'', 5)]"
  let ?ps = "\<lparr>operation = ''addition'', min_num = 0, max_num = 20, num_questions = 4,
               student_name = []\<rparr>"
  have c: "columns_for (length ?X) = 3" by (simp add: columns_for_def)
  from grid_rectangular [of ?X ?ps False "''01/02/2026''"]
  have a: "\<forall>row \<in> set (table_rows ?X False). length row = columns_for (length ?X)"
    and n: "length (table_rows ?X False) =
       (length ?X + columns_for (length ?X) - 1) div columns_for (length ?X)"
    by blast+
  from a c have a3: "\<forall>row \<in> set (table_rows ?X False). length row = 3" by simp
  from n c have n2: "length (table_rows ?X False) = 2" by simp
  have m: "[cell_of False 4 ''1 + 4'' 5, '' & '', '' & ''] \<in> set (table_rows ?X False)"
    by (simp add: table_rows_example)
  from a3 n2 m c table_rows_example [of False] show ?thesis by simp
qed

subsection \<open>Worksheet and answer key\<close>

lemma cell_of_parts:
  "cell_of False q problem answer =
     (bsl # ''textbf{'' @ str (int q) @ ''.} $'' @ problem @ ''$'')
       @ '' & '' @ (''$=$ '' @ bsl # ''rule{1.5cm}{0.4pt}'')"
  "cell_of True q problem answer =
     (bsl # ''textbf{'' @ str (int q) @ ''.} $'' @ problem @ ''$'')
       @ '' & '' @ (''$= '' @ str answer @ ''$'')"
  by (simp_all add: cell_of_def)

text \<open>
  Claim C6. For the same problems, the table of the worksheet (\<open>show_answers\<close> false) and
  the table of the answer key (\<open>show_answers\<close> true) have the same number of rows, and
  at every position of the grid both hold the cell of the same problem, carrying the
  same number and the same expression, or both hold an empty padding cell. The two
  cells of a problem have the same left part, the numbered expression, and differ in
  the answer part only: a rule to write on in the worksheet, the answer in the answer
  key. Both documents consist of their head, the lines of these rows and their tail.
\<close>

theorem worksheet_answer_key_cells:
  "length (table_rows problems False) = length (table_rows problems True)
   \<and> (\<forall>r<length (table_rows problems False). \<forall>j<columns_for (length problems).
        (r * columns_for (length problems) + j < length problems \<longrightarrow>
           table_rows problems False ! r ! j =
             cell_of False (r * columns_for (length problems) + j + 1)
               (fst (problems ! (r * columns_for (length problems) + j)))
               (snd (problems ! (r * columns_for (length problems) + j)))
         \<and> table_rows problems True ! r ! j =
             cell_of True (r * columns_for (length problems) + j + 1)
               (fst (problems ! (r * columns_for (length problems) + j)))
               (snd (problems ! (r * columns_for (length problems) + j))))
      \<and> (length problems \<le> r * columns_for (length problems) + j \<longrightarrow>
           table_rows problems False ! r ! j = '' & ''
         \<and> table_rows problems True ! r ! j = '' & ''))
   \<and> cell_of False q problem answer =
       (bsl # ''textbf{'' @ str (int q) @ ''.} $'' @ problem @ ''$'')
         @ '' & '' @ (''$=$ '' @ bsl # ''rule{1.5cm}{0.4pt}'')
   \<and> cell_of True q problem answer =
       (bsl # ''textbf{'' @ str (int q) @ ''.} $'' @ problem @ ''$'')
         @ '' & '' @ (''$= '' @ str answer @ ''$'')
   \<and> generate_latex problems ps False today =
       document_head ps False today (columns_for (length problems))
         @ concat (map row_line (table_rows problems False))
         @ document_tail False
   \<and> generate_latex problems ps True today =
       document_head ps True today (columns_for (length problems))
         @ concat (map row_line (table_rows problems True))
         @ document_tail True"
proof -
  have len: "length (table_rows problems False) = length (table_rows problems True)"
    by (simp add: table_rows_count)
  have cells: "\<forall>r<length (table_rows problems False). \<forall>j<columns_for (length problems).
        (r * columns_for (length problems) + j < length problems \<longrightarrow>
           table_rows problems False ! r ! j =
             cell_of False (r * columns_for (length problems) + j + 1)
               (fst (problems ! (r * columns_for (length problems) + j)))
               (snd (problems ! (r * columns_for (length problems) + j)))
         \<and> table_rows problems True ! r ! j =
             cell_of True (r * columns_for (length problems) + j + 1)
               (fst (problems ! (r * columns_for (length problems) + j)))
               (snd (problems ! (r * columns_for (length problems) + j))))
      \<and> (length problems \<le> r * columns_for (length problems) + j \<longrightarrow>
           table_rows problems False ! r ! j = '' & ''
         \<and> table_rows problems True ! r ! j = '' & '')"
  proof (intro allI impI)
    fix r j
    assume r: "r < length (table_rows problems False)" and j: "j < columns_for (length problems)"
    from r len have r': "r < length (table_rows problems True)" by simp
    from table_rows_nth [OF r j] table_rows_nth [OF r' j]
    show "(r * columns_for (length problems) + j < length problems \<longrightarrow>
           table_rows problems False ! r ! j =
             cell_of False (r * columns_for (length problems) + j + 1)
               (fst (problems ! (r * columns_for (length problems) + j)))
               (snd (problems ! (r * columns_for (length problems) + j)))
         \<and> table_rows problems True ! r ! j =
             cell_of True (r * columns_for (length problems) + j + 1)
               (fst (problems ! (r * columns_for (length problems) + j)))
               (snd (problems ! (r * columns_for (length problems) + j))))
      \<and> (length problems \<le> r * columns_for (length problems) + j \<longrightarrow>
           table_rows problems False ! r ! j = '' & ''
         \<and> table_rows problems True ! r ! j = '' & '')"
      by simp
  qed
  from len cells cell_of_parts [of q problem answer]
    generate_latex_rows [of problems ps False today]
    generate_latex_rows [of problems ps True today]
  show ?thesis by (intro conjI)
qed

theorem worksheet_answer_key_cells_witness:
  "(1::nat) < length (table_rows [(''1 + 1'', 2), (''1 + 2'', 3), (''1 + 3'', 4), (''1 + 4'', 5)] False)
   \<and> (0::nat) < columns_for (length [(''1 + 1'', 2::int), (''1 + 2'', 3), (''1 + 3'', 4), (''1 + 4'', 5)])
   \<and> (1::nat) < columns_for (length [(''1 + 1'', 2::int), (''1 + 2'', 3), (''1 + 3'', 4), (''1 + 4'', 5)])
   \<and> 1 * columns_for (length [(''1 + 1'', 2::int), (''1 + 2'', 3), (''1 + 3'', 4), (''1 + 4'', 5)]) + 0
        < length [(''1 + 1'', 2::int), (''1 + 2'', 3), (''1 + 3'', 4), (''1 + 4'', 5)]
   \<and> length [(''1 + 1'', 2::int), (''1 + 2'', 3), (''1 + 3'', 4), (''1 + 4'', 5)]
        \<le> 1 * columns_for (length [(''1 + 1'', 2::int), (''1 + 2'', 3), (''1 + 3'', 4), (''1 + 4'', 5)]) + 1
   \<and> table_rows [(''1 + 1'', 2), (''1 + 2'', 3), (''1 + 3'', 4), (''1 + 4'', 5)] False ! 1 ! 0
        = cell_of False 4 ''1 + 4'' 5
   \<and> table_rows [(''1 + 1'', 2), (''1 + 2'', 3), (''1 + 3'', 4), (''1 + 4'', 5)] True ! 1 ! 0
        = cell_of True 4 ''1 + 4'' 5
   \<and> table_rows [(''1 + 1'', 2), (''1 + 2'', 3), (''1 + 3'', 4), (''1 + 4'', 5)] False ! 1 ! 1 = '' & ''
   \<and> table_rows [(''1 + 1'', 2), (''1 + 2'', 3), (''1 + 3'', 4), (''1 + 4'', 5)] True ! 1 ! 1 = '' & ''
   \<and> cell_of False 4 ''1 + 4'' 5 =
        bsl # ''textbf{4.} $1 + 4$ & $=$ '' @ bsl # ''rule{1.5cm}{0.4pt}''
   \<and> cell_of True 4 ''1 + 4'' 5 = bsl # ''textbf{4.} $1 + 4$ & $= 5$''"
proof -
  let ?X = "[(''1 + 1'', 2::int), (''1 + 2'', 3), (''1 + 3'', 4), (''1 + 4'', 5)]"
  let ?ps = "\<lparr>operation = ''addition'', min_num = 0, max_num = 20, num_questions = 4,
               student_name = []\<rparr>"
  have c: "columns_for (length ?X) = 3" by (simp add: columns_for_def)
  have l: "length (table_rows ?X False) = 2" by (simp add: table_rows_example)
  from worksheet_answer_key_cells [of ?X 4 "''1 + 4''" 5 ?ps "''01/02/2026''"]
  have cells: "\<forall>r<length (table_rows ?X False). \<forall>j<columns_for (length ?X).
        (r * columns_for (length ?X) + j < length ?X \<longrightarrow>
           table_rows ?X False ! r ! j =
             cell_of False (r * columns_for (length ?X) + j + 1)
               (fst (?X ! (r * columns_for (length ?X) + j)))
               (snd (?X ! (r * columns_for (length ?X) + j)))
         \<and> table_rows ?X True ! r ! j =
             cell_of True (r * columns_for (length ?X) + j + 1)
               (fst (?X ! (r * columns_for (length ?X) + j)))
               (snd (?X ! (r * columns_for (length ?X) + j))))
      \<and> (length ?X \<le> r * columns_for (length ?X) + j \<longrightarrow>
           table_rows ?X False ! r ! j = '' & ''
         \<and> table_rows ?X True ! r ! j = '' & '')"
    and p1: "cell_of False 4 ''1 + 4'' 5 =
       (bsl # ''textbf{'' @ str (int 4) @ ''.} $'' @ ''1 + 4'' @ ''$'')
         @ '' & '' @ (''$=$ '' @ bsl # ''rule{1.5cm}{0.4pt}'')"
    and p2: "cell_of True 4 ''1 + 4'' 5 =
       (bsl # ''textbf{'' @ str (int 4) @ ''.} $'' @ ''1 + 4'' @ ''$'')
         @ '' & '' @ (''$= '' @ str 5 @ ''$'')"
    by blast+
  from cells l c have a: "table_rows ?X False ! 1 ! 0 = cell_of False 4 ''1 + 4'' 5
      \<and> table_rows ?X True ! 1 ! 0 = cell_of True 4 ''1 + 4'' 5"
    by (simp add: eval_nat_numeral)
  from cells l c have b: "table_rows ?X False ! 1 ! 1 = '' & ''
      \<and> table_rows ?X True ! 1 ! 1 = '' & ''"
    by (simp add: eval_nat_numeral)
  have s: "str 4 = ''4''" "str 5 = ''5''"
    by (simp_all add: str_def str_nat.simps digit_char_def)
  from a b c l p1 p2 s show ?thesis by simp
qed

end
